theory Spec2Isabelle
  imports Main "HOL-Library.Word"
begin

section \<open>Host values\<close>

text \<open>
  The module sees a host string through three interfaces only: the bytes that
  \<^verbatim>\<open>copy_string_contents\<close> delivers (without the closing NUL), the character count
  that \<^verbatim>\<open>length\<close> returns, and the \<^verbatim>\<open>coding-system\<close> text property at position 0
  (the name of the symbol stored there, \<open>None\<close> for nil).
\<close>

record lisp_string =
  str_bytes :: string
  str_length :: nat
  str_coding :: "string option"

text \<open>
  The finalizer stored in a user pointer: the two finalizers of this module, or one that
  belongs to some other module.
\<close>

datatype finalizer = Lisp_sqlite_free | Lisp_statement_free | Foreign_finalizer

text \<open>
  Host values. A user pointer carries its finalizer (a nullable function pointer) and the
  address of the struct it wraps.
\<close>

datatype emacs_value =
    Symbol string
  | Integer int
  | Float "64 word"
  | Str lisp_string
  | Cons_cell emacs_value emacs_value
  | Vector "emacs_value list"
  | User_ptr "finalizer option" nat

abbreviation (input) Qnil :: emacs_value where
  "Qnil \<equiv> Symbol ''nil''"

abbreviation (input) Qt :: emacs_value where
  "Qt \<equiv> Symbol ''t''"

fun TYPE_OF :: "emacs_value \<Rightarrow> string" where
  "TYPE_OF (Symbol n) = ''symbol''"
| "TYPE_OF (Integer n) = ''integer''"
| "TYPE_OF (Float f) = ''float''"
| "TYPE_OF (Str s) = ''string''"
| "TYPE_OF (Cons_cell a b) = ''cons''"
| "TYPE_OF (Vector xs) = ''vector''"
| "TYPE_OF (User_ptr f p) = ''user-ptr''"

definition TYPEP :: "emacs_value \<Rightarrow> string \<Rightarrow> bool" where
  "TYPEP v t = (TYPE_OF v = t)"

definition NILP :: "emacs_value \<Rightarrow> bool" where
  "NILP v = (v = Qnil)"

text \<open>
  \<^verbatim>\<open>make_string\<close> decodes UTF-8: the new string has one character per byte that is not
  a continuation byte. \<^verbatim>\<open>make_unibyte_string\<close> has one character per byte.
\<close>

definition utf8_chars :: "string \<Rightarrow> nat" where
  "utf8_chars bs =
     length (filter (\<lambda>c. \<not> (128 \<le> (of_char c :: nat) \<and> (of_char c :: nat) < 192)) bs)"

definition make_string :: "string \<Rightarrow> emacs_value" where
  "make_string bs = Str \<lparr>str_bytes = bs, str_length = utf8_chars bs, str_coding = None\<rparr>"

definition make_unibyte_string :: "string \<Rightarrow> emacs_value" where
  "make_unibyte_string bs = Str \<lparr>str_bytes = bs, str_length = length bs, str_coding = None\<rparr>"

definition build_string :: "string \<Rightarrow> emacs_value" where
  "build_string s = make_string s"

definition make_int :: "int \<Rightarrow> emacs_value" where
  "make_int n = Integer n"

section \<open>Native calls and the engine\<close>

text \<open>
  What is handed to one of the \<^verbatim>\<open>sqlite3_bind_*\<close> functions. A text or blob is its
  bytes, or \<open>None\<close> for the NULL pointer with length 0.
\<close>

datatype bind_arg =
    Bind_blob "string option"
  | Bind_text "string option"
  | Bind_int64 "64 word"
  | Bind_double "64 word"
  | Bind_null
  | Bind_int "32 word"

text \<open>
  What a result column holds: its \<^verbatim>\<open>sqlite3_column_type\<close> is the constructor, the
  payload is what the accessor of that type returns.
\<close>

datatype column_value =
    Column_integer "64 word"
  | Column_float "64 word"
  | Column_blob string
  | Column_text string
  | Column_null

text \<open>
  The calls made to the native engine, in the order they are made. Pointers are
  nullable: \<open>None\<close> is NULL.
\<close>

datatype native_call =
    Open_v2 string "32 word"
  | Close "nat option"
  | Prepare_v2 "nat option" string int
  | Reset "nat option"
  | Bind "nat option" nat bind_arg
  | Step "nat option"
  | Finalize "nat option"
  | Changes "nat option"
  | Errmsg "nat option"
  | Exec "nat option" string

abbreviation (input) SQLITE_OK :: int where "SQLITE_OK \<equiv> 0"
abbreviation (input) SQLITE_BUSY :: int where "SQLITE_BUSY \<equiv> 5"
abbreviation (input) SQLITE_LOCKED :: int where "SQLITE_LOCKED \<equiv> 6"
abbreviation (input) SQLITE_MISMATCH :: int where "SQLITE_MISMATCH \<equiv> 20"
abbreviation (input) SQLITE_ROW :: int where "SQLITE_ROW \<equiv> 100"
abbreviation (input) SQLITE_DONE :: int where "SQLITE_DONE \<equiv> 101"

datatype signal = Signal string "emacs_value list"

text \<open>
  The collaborators outside this file. The native engine is a black box: what it
  answers to a call may depend on every call made before, so each answer is a function
  of the calls so far. The host supplies path expansion, text encoding and string
  concatenation, which can signal; after such a signal nothing is copied into the buffer
  the module allocates, and \<open>unfilled_buffer\<close> is the text that buffer is read as.
  \<^verbatim>\<open>sqlite_prepare_errdata\<close> is called by \<^verbatim>\<open>Fsqlite_select\<close> and defined nowhere in
  the file; it is taken as given.
\<close>

record engine =
  reply_open_v2 :: "native_call list \<Rightarrow> string \<Rightarrow> 32 word \<Rightarrow> int \<times> nat option"
  reply_prepare_v2 :: "native_call list \<Rightarrow> nat option \<Rightarrow> string \<Rightarrow> int \<Rightarrow> int \<times> nat option"
  reply_bind :: "native_call list \<Rightarrow> nat option \<Rightarrow> nat \<Rightarrow> bind_arg \<Rightarrow> int"
  reply_step :: "native_call list \<Rightarrow> nat option \<Rightarrow> int"
  reply_changes :: "native_call list \<Rightarrow> nat option \<Rightarrow> 32 word"
  reply_errmsg :: "native_call list \<Rightarrow> nat option \<Rightarrow> string"
  reply_exec :: "native_call list \<Rightarrow> nat option \<Rightarrow> string \<Rightarrow> int"
  column_count :: "native_call list \<Rightarrow> nat option \<Rightarrow> nat"
  column :: "native_call list \<Rightarrow> nat option \<Rightarrow> nat \<Rightarrow> column_value"
  column_name :: "native_call list \<Rightarrow> nat option \<Rightarrow> nat \<Rightarrow> string"
  expand_file_name :: "emacs_value \<Rightarrow> signal + lisp_string"
  encode_coding_string :: "lisp_string \<Rightarrow> string \<Rightarrow> signal + lisp_string"
  concat :: "string \<Rightarrow> emacs_value \<Rightarrow> signal + lisp_string"
  unfilled_buffer :: string
  sqlite_prepare_errdata :: "int \<Rightarrow> string"

section \<open>Module state\<close>

record Lisp_Sqlite =
  db :: "nat option"

record Lisp_Statement =
  stmt_db :: "nat option"
  stmt :: "nat option"
  eof :: bool

text \<open>
  The state the module works on: the counter \<^verbatim>\<open>db_count\<close> (a C \<^verbatim>\<open>int\<close> of 32 bits,
  read as two's complement), the structs behind the user pointers by
  address, the next address \<^verbatim>\<open>malloc\<close> hands out, the nonlocal exit pending in the
  host environment, and the native calls made so far.
\<close>

record world =
  db_count :: "32 word"
  sqlites :: "nat \<Rightarrow> Lisp_Sqlite"
  statements :: "nat \<Rightarrow> Lisp_Statement"
  next_ptr :: nat
  pending :: "signal option"
  trace :: "native_call list"

text \<open>
  \<^verbatim>\<open>non_local_exit_signal\<close> records the signal unless one is pending already: the first
  signal of a call is the one the host raises when the function returns.
\<close>

definition xsignal :: "string \<Rightarrow> emacs_value list \<Rightarrow> world \<Rightarrow> world" where
  "xsignal symbol data w =
     (case pending w of
        None \<Rightarrow> w\<lparr>pending := Some (Signal symbol data)\<rparr>
      | Some _ \<Rightarrow> w)"

text \<open>
  How a module function ends: it returns a value to the host (which then raises the
  pending signal, if there is one), or it does what C leaves undefined: it dereferences a
  null pointer, reads past a buffer or overflows a signed integer.
\<close>

datatype outcome = Returned emacs_value world | Crashed world

section \<open>Handle validation\<close>

definition CHECK_STRING :: "emacs_value \<Rightarrow> world \<Rightarrow> bool \<times> world" where
  "CHECK_STRING v w =
     (if TYPEP v ''string'' then (True, w)
      else (False, xsignal ''wrong-type-argument'' [Symbol ''stringp'', v] w))"

fun get_user_finalizer :: "emacs_value \<Rightarrow> finalizer option" where
  "get_user_finalizer (User_ptr f p) = f"
| "get_user_finalizer _ = None"

fun get_user_ptr :: "emacs_value \<Rightarrow> nat" where
  "get_user_ptr (User_ptr f p) = p"
| "get_user_ptr _ = 0"

definition user_ptr_check :: "emacs_value \<Rightarrow> finalizer option" where
  "user_ptr_check v = (if TYPEP v ''user-ptr'' then get_user_finalizer v else None)"

text \<open>Both checks return the address of the struct, or \<open>None\<close> for NULL after signalling.\<close>

definition lisp_sqlite_check :: "emacs_value \<Rightarrow> world \<Rightarrow> nat option \<times> world" where
  "lisp_sqlite_check v w =
     (let finalizer = user_ptr_check v in
      if finalizer = Some Lisp_sqlite_free then
        (let ptr = get_user_ptr v in
         if db (sqlites w ptr) \<noteq> None then (Some ptr, w)
         else (None, xsignal ''error'' [build_string ''Database closed''] w))
      else if finalizer = Some Lisp_statement_free then
        (None, xsignal ''error'' [build_string ''Invalid database object''] w)
      else (None, xsignal ''wrong-type-argument'' [Symbol ''sqlitep'', v] w))"

definition lisp_statement_check :: "emacs_value \<Rightarrow> world \<Rightarrow> nat option \<times> world" where
  "lisp_statement_check v w =
     (let finalizer = user_ptr_check v in
      if finalizer = Some Lisp_statement_free then
        (let ptr = get_user_ptr v in
         if stmt (statements w ptr) \<noteq> None then (Some ptr, w)
         else (None, xsignal ''error'' [build_string ''Statement closed''] w))
      else if finalizer = Some Lisp_sqlite_free then
        (None, xsignal ''error'' [build_string ''Invalid set object''] w)
      else (None, xsignal ''wrong-type-argument'' [Symbol ''sqlitep'', v] w))"


section \<open>Host helpers\<close>

text \<open>A signal raised inside a host function called through \<^verbatim>\<open>funcall\<close> stays pending.\<close>

definition host_signal :: "signal \<Rightarrow> world \<Rightarrow> world" where
  "host_signal sig w = (case pending w of None \<Rightarrow> w\<lparr>pending := Some sig\<rparr> | Some _ \<Rightarrow> w)"

text \<open>
  \<^verbatim>\<open>extract_integer\<close> yields an \<^verbatim>\<open>intmax_t\<close>; an integer outside 64 bits signals
  \<^verbatim>\<open>overflow-error\<close> and yields 0. Values that are no integers do not reach it.
\<close>

definition XFIXNUM :: "emacs_value \<Rightarrow> world \<Rightarrow> 64 word \<times> world" where
  "XFIXNUM v w =
     (case v of
        Integer n \<Rightarrow>
          if - (2 ^ 63) \<le> n \<and> n < 2 ^ 63 then (word_of_int n, w)
          else (0, xsignal ''overflow-error'' [v] w)
      | _ \<Rightarrow> (0, xsignal ''wrong-type-argument'' [Symbol ''integerp'', v] w))"

fun string_contents :: "emacs_value \<Rightarrow> string" where
  "string_contents (Str s) = str_bytes s"
| "string_contents _ = []"

fun proper_length :: "emacs_value \<Rightarrow> nat option" where
  "proper_length (Cons_cell a b) = map_option Suc (proper_length b)"
| "proper_length (Symbol n) = (if n = ''nil'' then Some 0 else None)"
| "proper_length _ = None"

text \<open>
  The host's \<^verbatim>\<open>length\<close>, read through \<^verbatim>\<open>extract_integer\<close>: the length of a proper
  list, a string or a vector; anything else signals and the count read is 0.
\<close>

definition lisp_length :: "emacs_value \<Rightarrow> world \<Rightarrow> nat \<times> world" where
  "lisp_length v w =
     (case v of
        Str s \<Rightarrow> (str_length s, w)
      | Vector xs \<Rightarrow> (length xs, w)
      | _ \<Rightarrow>
          (case proper_length v of
             Some n \<Rightarrow> (n, w)
           | None \<Rightarrow> (0, xsignal ''wrong-type-argument'' [Symbol ''listp'', v] w)))"

definition car :: "emacs_value \<Rightarrow> world \<Rightarrow> emacs_value \<times> world" where
  "car v w =
     (case v of
        Cons_cell a b \<Rightarrow> (a, w)
      | _ \<Rightarrow> if NILP v then (Qnil, w)
             else (Qnil, xsignal ''wrong-type-argument'' [Symbol ''listp'', v] w))"

definition cdr :: "emacs_value \<Rightarrow> world \<Rightarrow> emacs_value \<times> world" where
  "cdr v w =
     (case v of
        Cons_cell a b \<Rightarrow> (b, w)
      | _ \<Rightarrow> if NILP v then (Qnil, w)
             else (Qnil, xsignal ''wrong-type-argument'' [Symbol ''listp'', v] w))"

fun vec_size :: "emacs_value \<Rightarrow> nat" where
  "vec_size (Vector xs) = length xs"
| "vec_size _ = 0"

fun vec_get :: "emacs_value \<Rightarrow> nat \<Rightarrow> emacs_value" where
  "vec_get (Vector xs) i = (if i < length xs then xs ! i else Qnil)"
| "vec_get _ i = Qnil"

fun nreverse_onto :: "emacs_value \<Rightarrow> emacs_value \<Rightarrow> emacs_value" where
  "nreverse_onto (Cons_cell a b) acc = nreverse_onto b (Cons_cell a acc)"
| "nreverse_onto _ acc = acc"

definition nreverse :: "emacs_value \<Rightarrow> emacs_value" where
  "nreverse v = nreverse_onto v Qnil"

text \<open>The host list holding the given elements in order.\<close>

fun list_value :: "emacs_value list \<Rightarrow> emacs_value" where
  "list_value [] = Qnil"
| "list_value (x # xs) = Cons_cell x (list_value xs)"

text \<open>\<^verbatim>\<open>format\<close> with \<^verbatim>\<open>%d\<close>: the decimal digits of an integer, with a minus sign.\<close>

fun digits :: "nat \<Rightarrow> string" where
  "digits n = (if n < 10 then [char_of (48 + n)] else digits (n div 10) @ [char_of (48 + n mod 10)])"

declare digits.simps [simp del]

definition format_d :: "int \<Rightarrow> string" where
  "format_d i = (if i < 0 then CHR ''-'' # digits (nat (- i)) else digits (nat i))"

section \<open>Calls to the native engine\<close>

definition native :: "native_call \<Rightarrow> world \<Rightarrow> world" where
  "native c w = w\<lparr>trace := trace w @ [c]\<rparr>"

definition sqlite3_open_v2 :: "engine \<Rightarrow> string \<Rightarrow> 32 word \<Rightarrow> world \<Rightarrow> (int \<times> nat option) \<times> world" where
  "sqlite3_open_v2 eng name flags w =
     (reply_open_v2 eng (trace w) name flags, native (Open_v2 name flags) w)"

definition sqlite3_close :: "engine \<Rightarrow> nat option \<Rightarrow> world \<Rightarrow> world" where
  "sqlite3_close eng d w = native (Close d) w"

definition sqlite3_prepare_v2 ::
  "engine \<Rightarrow> nat option \<Rightarrow> string \<Rightarrow> int \<Rightarrow> world \<Rightarrow> (int \<times> nat option) \<times> world" where
  "sqlite3_prepare_v2 eng d sql nbyte w =
     (reply_prepare_v2 eng (trace w) d sql nbyte, native (Prepare_v2 d sql nbyte) w)"

definition sqlite3_reset :: "engine \<Rightarrow> nat option \<Rightarrow> world \<Rightarrow> world" where
  "sqlite3_reset eng s w = native (Reset s) w"

definition sqlite3_bind :: "engine \<Rightarrow> nat option \<Rightarrow> nat \<Rightarrow> bind_arg \<Rightarrow> world \<Rightarrow> int \<times> world" where
  "sqlite3_bind eng s pos a w = (reply_bind eng (trace w) s pos a, native (Bind s pos a) w)"

definition sqlite3_step :: "engine \<Rightarrow> nat option \<Rightarrow> world \<Rightarrow> int \<times> world" where
  "sqlite3_step eng s w = (reply_step eng (trace w) s, native (Step s) w)"

definition sqlite3_finalize :: "engine \<Rightarrow> nat option \<Rightarrow> world \<Rightarrow> world" where
  "sqlite3_finalize eng s w = native (Finalize s) w"

definition sqlite3_changes :: "engine \<Rightarrow> nat option \<Rightarrow> world \<Rightarrow> 32 word \<times> world" where
  "sqlite3_changes eng d w = (reply_changes eng (trace w) d, native (Changes d) w)"

definition sqlite3_errmsg :: "engine \<Rightarrow> nat option \<Rightarrow> world \<Rightarrow> string \<times> world" where
  "sqlite3_errmsg eng d w = (reply_errmsg eng (trace w) d, native (Errmsg d) w)"

definition sqlite3_exec :: "engine \<Rightarrow> nat option \<Rightarrow> string \<Rightarrow> world \<Rightarrow> int \<times> world" where
  "sqlite3_exec eng d sql w = (reply_exec eng (trace w) d sql, native (Exec d sql) w)"

section \<open>Making handles\<close>

definition lisp_sqlite_make :: "nat option \<Rightarrow> world \<Rightarrow> emacs_value \<times> world" where
  "lisp_sqlite_make d w =
     (let ptr = next_ptr w in
      (User_ptr (Some Lisp_sqlite_free) ptr,
       w\<lparr>sqlites := (sqlites w)(ptr := \<lparr>db = d\<rparr>), next_ptr := ptr + 1\<rparr>))"

definition lisp_statement_make :: "nat option \<Rightarrow> nat option \<Rightarrow> world \<Rightarrow> emacs_value \<times> world" where
  "lisp_statement_make d s w =
     (let ptr = next_ptr w in
      (User_ptr (Some Lisp_statement_free) ptr,
       w\<lparr>statements := (statements w)(ptr := \<lparr>stmt_db = d, stmt = s, eof = False\<rparr>),
         next_ptr := ptr + 1\<rparr>))"

section \<open>Opening and closing\<close>

abbreviation (input) SQLITE_OPEN_READWRITE :: "32 word" where "SQLITE_OPEN_READWRITE \<equiv> 0x2"
abbreviation (input) SQLITE_OPEN_CREATE :: "32 word" where "SQLITE_OPEN_CREATE \<equiv> 0x4"
abbreviation (input) SQLITE_OPEN_URI :: "32 word" where "SQLITE_OPEN_URI \<equiv> 0x40"
abbreviation (input) SQLITE_OPEN_MEMORY :: "32 word" where "SQLITE_OPEN_MEMORY \<equiv> 0x80"
abbreviation (input) SQLITE_OPEN_FULLMUTEX :: "32 word" where "SQLITE_OPEN_FULLMUTEX \<equiv> 0x10000"

text \<open>The end of \<^verbatim>\<open>Fsqlite_open\<close>, from the copy of the name on.\<close>

definition open_database :: "engine \<Rightarrow> string \<Rightarrow> 32 word \<Rightarrow> world \<Rightarrow> outcome" where
  "open_database eng name flags w =
     (case sqlite3_open_v2 eng name flags w of
        ((ret, sdb), w1) \<Rightarrow>
          if ret \<noteq> SQLITE_OK then Returned Qnil w1
          else (case lisp_sqlite_make sdb w1 of (v, w2) \<Rightarrow> Returned v w2))"

text \<open>
  With every \<^verbatim>\<open>SQLITE_OPEN_*\<close> flag defined. When path expansion signals, the function
  goes on: the name handed to the engine is the unfilled buffer. Incrementing
  \<^verbatim>\<open>db_count\<close> at the largest \<^verbatim>\<open>int\<close> is a signed overflow, which C leaves
  undefined: the call counts as crashed.
\<close>

definition Fsqlite_open :: "engine \<Rightarrow> emacs_value list \<Rightarrow> world \<Rightarrow> outcome" where
  "Fsqlite_open eng args w =
     (let flags = or (or (or SQLITE_OPEN_CREATE SQLITE_OPEN_READWRITE) SQLITE_OPEN_FULLMUTEX)
                    SQLITE_OPEN_URI in
      if length args > 0 \<and> \<not> NILP (args ! 0) then
        (case expand_file_name eng (args ! 0) of
           Inl sig \<Rightarrow> open_database eng (unfilled_buffer eng) flags (host_signal sig w)
         | Inr name \<Rightarrow> open_database eng (str_bytes name) flags w)
      else if db_count w = 0x7FFFFFFF then Crashed w
      else
        (let w1 = w\<lparr>db_count := db_count w + 1\<rparr>;
             name = '':memory:'' @ format_d (sint (db_count w1))
         in open_database eng name (or flags SQLITE_OPEN_MEMORY) w1))"

definition Fsqlite_close :: "engine \<Rightarrow> emacs_value list \<Rightarrow> world \<Rightarrow> outcome" where
  "Fsqlite_close eng args w =
     (case lisp_sqlite_check (args ! 0) w of
        (None, w1) \<Rightarrow> Returned Qnil w1
      | (Some ptr, w1) \<Rightarrow>
          (let w2 = sqlite3_close eng (db (sqlites w1 ptr)) w1 in
           Returned Qt (w2\<lparr>sqlites := (sqlites w2)(ptr := (sqlites w2 ptr)\<lparr>db := None\<rparr>)\<rparr>)))"

section \<open>Binding values\<close>

text \<open>The check after each bind: a status other than \<^verbatim>\<open>SQLITE_OK\<close> ends the binding.\<close>

definition bind_status :: "engine \<Rightarrow> nat option \<Rightarrow> int \<times> world \<Rightarrow> string option \<times> world" where
  "bind_status eng d r =
     (case r of
        (ret, w) \<Rightarrow>
          if ret \<noteq> SQLITE_OK then (case sqlite3_errmsg eng d w of (msg, w1) \<Rightarrow> (Some msg, w1))
          else (None, w))"

text \<open>
  The body of the loop of \<^verbatim>\<open>bind_values\<close> for the element \<open>value\<close> at index \<open>i\<close>.
  The result is the message returned from inside the loop, or \<open>None\<close> when the loop goes
  on. While a nonlocal exit is pending every host call fails: no type matches and
  \<^verbatim>\<open>NILP\<close> holds, so NULL is bound. A string whose encoding signals is not copied: its
  size stays 0.
\<close>

definition bind_value ::
  "engine \<Rightarrow> nat option \<Rightarrow> nat option \<Rightarrow> nat \<Rightarrow> emacs_value \<Rightarrow> world \<Rightarrow> string option \<times> world" where
  "bind_value eng d s i value w =
     (if pending w \<noteq> None then bind_status eng d (sqlite3_bind eng s (i + 1) Bind_null w)
      else
        (case value of
           Str str \<Rightarrow>
             (let coding_system = str_coding str;
                  blob = (coding_system = Some ''binary'');
                  encoded =
                    (case coding_system of
                       None \<Rightarrow> Inr str
                     | Some cs \<Rightarrow> if cs = ''binary'' then Inr str else encode_coding_string eng str cs)
              in
                (case encoded of
                   Inl sig \<Rightarrow>
                     bind_status eng d (sqlite3_bind eng s (i + 1) (Bind_text None) (host_signal sig w))
                 | Inr str1 \<Rightarrow>
                     (let sz = length (str_bytes str1) + 1 in
                      if blob then
                        (if sz \<noteq> 0 then
                           (if int sz \<noteq> int (str_length str1) + 1 then
                              (Some [], xsignal ''error'' [build_string ''BLOB values must be unibyte''] w)
                            else
                              bind_status eng d
                                (sqlite3_bind eng s (i + 1) (Bind_blob (Some (str_bytes str1))) w))
                         else bind_status eng d (sqlite3_bind eng s (i + 1) (Bind_blob None) w))
                      else
                        (if sz \<noteq> 0 then
                           bind_status eng d
                             (sqlite3_bind eng s (i + 1) (Bind_text (Some (str_bytes str1))) w)
                         else bind_status eng d (sqlite3_bind eng s (i + 1) (Bind_text None) w)))))
         | Integer n \<Rightarrow>
             (case XFIXNUM value w of
                (x, w1) \<Rightarrow> bind_status eng d (sqlite3_bind eng s (i + 1) (Bind_int64 x) w1))
         | Float f \<Rightarrow> bind_status eng d (sqlite3_bind eng s (i + 1) (Bind_double f) w)
         | _ \<Rightarrow>
             if NILP value then bind_status eng d (sqlite3_bind eng s (i + 1) Bind_null w)
             else if value = Qt then bind_status eng d (sqlite3_bind eng s (i + 1) (Bind_int 1) w)
             else if value = Symbol ''false'' then
               bind_status eng d (sqlite3_bind eng s (i + 1) (Bind_int 0) w)
             else (Some ''invalid argument'', w)))"

text \<open>
  The loop \<^verbatim>\<open>for (i = 0; i < len; ++i)\<close>, with the number of iterations left as its
  measure. A vector is read by index; a list is consumed with \<^verbatim>\<open>car\<close> and \<^verbatim>\<open>cdr\<close>.
\<close>

fun bind_values_loop ::
  "engine \<Rightarrow> nat option \<Rightarrow> nat option \<Rightarrow> bool \<Rightarrow> emacs_value \<Rightarrow> nat \<Rightarrow> nat \<Rightarrow> world
     \<Rightarrow> string option \<times> world" where
  "bind_values_loop eng d s is_vector values i 0 w = (None, w)"
| "bind_values_loop eng d s is_vector values i (Suc left) w =
     (case (if is_vector then ((vec_get values i, values), w)
            else (case car values w of
                    (value, w1) \<Rightarrow> (case cdr values w1 of (rest, w2) \<Rightarrow> ((value, rest), w2)))) of
        ((value, values1), w3) \<Rightarrow>
          (case bind_value eng d s i value w3 of
             (Some err, w4) \<Rightarrow> (Some err, w4)
           | (None, w4) \<Rightarrow> bind_values_loop eng d s is_vector values1 (i + 1) left w4))"

definition bind_values ::
  "engine \<Rightarrow> nat option \<Rightarrow> nat option \<Rightarrow> emacs_value \<Rightarrow> world \<Rightarrow> string option \<times> world" where
  "bind_values eng d s values w =
     (let w1 = sqlite3_reset eng s w;
          is_vector = TYPEP values ''vector''
      in
        (case (if is_vector then (vec_size values, w1) else lisp_length values w1) of
           (len, w2) \<Rightarrow> bind_values_loop eng d s is_vector values 0 len w2))"

section \<open>Executing a statement\<close>

text \<open>The label \<^verbatim>\<open>exit\<close> of \<^verbatim>\<open>Fsqlite_execute\<close>.\<close>

definition execute_exit :: "int \<Rightarrow> string \<Rightarrow> world \<Rightarrow> outcome" where
  "execute_exit ret errmsg w =
     (if ret = SQLITE_LOCKED \<or> ret = SQLITE_BUSY then
        Returned Qnil (xsignal ''sqlite_locked_error'' [build_string errmsg] w)
      else Returned Qnil (xsignal ''error'' [build_string errmsg] w))"

definition Fsqlite_execute :: "engine \<Rightarrow> emacs_value list \<Rightarrow> world \<Rightarrow> outcome" where
  "Fsqlite_execute eng args w =
     (case lisp_sqlite_check (args ! 0) w of
        (None, w1) \<Rightarrow> Returned Qnil w1
      | (Some ptr, w1) \<Rightarrow>
          (case CHECK_STRING (args ! 1) w1 of
             (False, w2) \<Rightarrow> Returned Qnil w2
           | (True, w2) \<Rightarrow>
               if length args > 2 \<and>
                  \<not> (NILP (args ! 2) \<or> TYPE_OF (args ! 2) = ''cons'' \<or> TYPE_OF (args ! 2) = ''vector'')
               then Returned Qnil (xsignal ''error'' [build_string ''VALUES must be a list or a vector''] w2)
               else
                 (let d = db (sqlites w2 ptr) in
                  case sqlite3_prepare_v2 eng d (string_contents (args ! 1)) (- 1) w2 of
                    ((ret, s), w3) \<Rightarrow>
                      if ret \<noteq> SQLITE_OK then
                        (let w4 = (if s \<noteq> None then sqlite3_reset eng s (sqlite3_finalize eng s w3)
                                   else w3)
                         in case sqlite3_errmsg eng d w4 of
                              (errmsg, w5) \<Rightarrow> execute_exit ret errmsg w5)
                      else
                        (case (if length args > 2 \<and> \<not> NILP (args ! 2)
                               then bind_values eng d s (args ! 2) w3 else (None, w3)) of
                           (Some err, w4) \<Rightarrow> execute_exit ret err w4
                         | (None, w4) \<Rightarrow>
                             (case sqlite3_step eng s w4 of
                                (ret1, w5) \<Rightarrow>
                                  (let w6 = sqlite3_finalize eng s w5 in
                                   if ret1 \<noteq> SQLITE_OK \<and> ret1 \<noteq> SQLITE_DONE then
                                     (case sqlite3_errmsg eng d w6 of
                                        (errmsg, w7) \<Rightarrow> execute_exit ret1 errmsg w7)
                                   else
                                     (case sqlite3_changes eng d w6 of
                                        (n, w7) \<Rightarrow> Returned (make_int (sint n)) w7)))))))"

section \<open>Decoding rows\<close>

text \<open>The \<^verbatim>\<open>switch\<close> of \<^verbatim>\<open>row_to_value\<close> on the type of one column.\<close>

definition column_to_value :: "column_value \<Rightarrow> emacs_value" where
  "column_to_value c =
     (case c of
        Column_integer n \<Rightarrow> make_int (sint n)
      | Column_float f \<Rightarrow> Float f
      | Column_blob b \<Rightarrow> make_unibyte_string b
      | Column_text t \<Rightarrow> make_string t
      | Column_null \<Rightarrow> Qnil)"

fun row_to_value_loop ::
  "engine \<Rightarrow> native_call list \<Rightarrow> nat option \<Rightarrow> nat \<Rightarrow> nat \<Rightarrow> emacs_value \<Rightarrow> emacs_value" where
  "row_to_value_loop eng tr s i 0 values = values"
| "row_to_value_loop eng tr s i (Suc left) values =
     row_to_value_loop eng tr s (i + 1) left (Cons_cell (column_to_value (column eng tr s i)) values)"

definition row_to_value :: "engine \<Rightarrow> native_call list \<Rightarrow> nat option \<Rightarrow> emacs_value" where
  "row_to_value eng tr s =
     (let len = column_count eng tr s in nreverse (row_to_value_loop eng tr s 0 len Qnil))"

fun column_names_loop ::
  "engine \<Rightarrow> native_call list \<Rightarrow> nat option \<Rightarrow> nat \<Rightarrow> nat \<Rightarrow> emacs_value \<Rightarrow> emacs_value" where
  "column_names_loop eng tr s i 0 columns = columns"
| "column_names_loop eng tr s i (Suc left) columns =
     column_names_loop eng tr s (i + 1) left (Cons_cell (build_string (column_name eng tr s i)) columns)"

definition column_names :: "engine \<Rightarrow> native_call list \<Rightarrow> nat option \<Rightarrow> emacs_value" where
  "column_names eng tr s =
     (let count = column_count eng tr s in nreverse (column_names_loop eng tr s 0 count Qnil))"

section \<open>Selecting\<close>

text \<open>
  The loop \<^verbatim>\<open>while ((ret = sqlite3_step(stmt)) == SQLITE_ROW)\<close>. Nothing bounds the
  number of rows the engine delivers, so the loop is a partial function: \<open>None\<close> is
  the loop that never ends. It yields the last status, the rows consed up (last row
  first) and the state.
\<close>

partial_function (option) select_loop ::
  "engine \<Rightarrow> nat option \<Rightarrow> emacs_value \<Rightarrow> world \<Rightarrow> (int \<times> emacs_value \<times> world) option" where
  "select_loop eng s retval w =
     (case sqlite3_step eng s w of
        (ret, w1) \<Rightarrow>
          if ret = SQLITE_ROW then
            select_loop eng s (Cons_cell (row_to_value eng (trace w1) s) retval) w1
          else Some (ret, retval, w1))"

text \<open>The label \<^verbatim>\<open>exit\<close> of \<^verbatim>\<open>Fsqlite_select\<close>.\<close>

definition select_exit :: "string \<Rightarrow> world \<Rightarrow> outcome" where
  "select_exit errmsg w = Returned Qnil (xsignal ''error'' [build_string errmsg] w)"

definition Fsqlite_select :: "engine \<Rightarrow> emacs_value list \<Rightarrow> world \<Rightarrow> outcome option" where
  "Fsqlite_select eng args w =
     (case lisp_sqlite_check (args ! 0) w of
        (None, w1) \<Rightarrow> Some (Returned Qnil w1)
      | (Some ptr, w1) \<Rightarrow>
          (case CHECK_STRING (args ! 1) w1 of
             (False, w2) \<Rightarrow> Some (Returned Qnil w2)
           | (True, w2) \<Rightarrow>
               (let d = db (sqlites w2 ptr);
                    encoded = string_contents (args ! 1);
                    sz = int (length encoded) + 1
                in case sqlite3_prepare_v2 eng d encoded sz w2 of
                     ((ret, s), w3) \<Rightarrow>
                       if ret \<noteq> SQLITE_OK then
                         (let w4 = (if s \<noteq> None then sqlite3_finalize eng s w3 else w3) in
                          Some (select_exit (sqlite_prepare_errdata eng ret) w4))
                       else
                         (case (if length args > 2 \<and> \<not> NILP (args ! 2)
                                then bind_values eng d s (args ! 2) w3 else (None, w3)) of
                            (Some err, w4) \<Rightarrow> Some (select_exit err (sqlite3_finalize eng s w4))
                          | (None, w4) \<Rightarrow>
                              if length args > 3 \<and> args ! 3 = Symbol ''set'' then
                                (case lisp_statement_make d s w4 of (v, w5) \<Rightarrow> Some (Returned v w5))
                              else
                                (case select_loop eng s Qnil w4 of
                                   None \<Rightarrow> None
                                 | Some (ret1, retval, w5) \<Rightarrow>
                                     (let retval1 = nreverse retval;
                                          retval2 =
                                            (if length args > 3 \<and> args ! 3 = Symbol ''full''
                                             then Cons_cell (column_names eng (trace w5) s) retval1
                                             else retval1)
                                      in Some (Returned retval2 (sqlite3_finalize eng s w5))))))))"

section \<open>Transactions and pragmas\<close>

text \<open>
  \<^verbatim>\<open>Fsqlite_transaction\<close> reads \<^verbatim>\<open>ptr->db\<close> without testing \<^verbatim>\<open>ptr\<close>: when the
  check returned NULL the read is a null pointer dereference.
\<close>

definition Fsqlite_transaction :: "engine \<Rightarrow> emacs_value list \<Rightarrow> world \<Rightarrow> outcome" where
  "Fsqlite_transaction eng args w =
     (case lisp_sqlite_check (args ! 0) w of
        (None, w1) \<Rightarrow> Crashed w1
      | (Some ptr, w1) \<Rightarrow>
          (case sqlite3_exec eng (db (sqlites w1 ptr)) ''begin'' w1 of
             (ret, w2) \<Rightarrow> if ret \<noteq> SQLITE_OK then Returned Qnil w2 else Returned Qt w2))"

definition Fsqlite_commit :: "engine \<Rightarrow> emacs_value list \<Rightarrow> world \<Rightarrow> outcome" where
  "Fsqlite_commit eng args w =
     (case lisp_sqlite_check (args ! 0) w of
        (None, w1) \<Rightarrow> Returned Qnil w1
      | (Some ptr, w1) \<Rightarrow>
          (case sqlite3_exec eng (db (sqlites w1 ptr)) ''commit'' w1 of
             (ret, w2) \<Rightarrow> if ret \<noteq> SQLITE_OK then Returned Qnil w2 else Returned Qt w2))"

definition Fsqlite_rollback :: "engine \<Rightarrow> emacs_value list \<Rightarrow> world \<Rightarrow> outcome" where
  "Fsqlite_rollback eng args w =
     (case lisp_sqlite_check (args ! 0) w of
        (None, w1) \<Rightarrow> Returned Qnil w1
      | (Some ptr, w1) \<Rightarrow>
          (case sqlite3_exec eng (db (sqlites w1 ptr)) ''rollback'' w1 of
             (ret, w2) \<Rightarrow> if ret \<noteq> SQLITE_OK then Returned Qnil w2 else Returned Qt w2))"

text \<open>
  When the concatenation signals, the function goes on: the text handed to the engine is
  the unfilled buffer.
\<close>

definition Fsqlite_pragma :: "engine \<Rightarrow> emacs_value list \<Rightarrow> world \<Rightarrow> outcome" where
  "Fsqlite_pragma eng args w =
     (case lisp_sqlite_check (args ! 0) w of
        (None, w1) \<Rightarrow> Returned Qnil w1
      | (Some ptr, w1) \<Rightarrow>
          (case concat eng ''PRAGMA '' (args ! 1) of
             Inl sig \<Rightarrow>
               (case sqlite3_exec eng (db (sqlites w1 ptr)) (unfilled_buffer eng)
                       (host_signal sig w1) of
                  (ret, w2) \<Rightarrow> if ret \<noteq> SQLITE_OK then Returned Qnil w2 else Returned Qt w2)
           | Inr pragma \<Rightarrow>
               (case sqlite3_exec eng (db (sqlites w1 ptr)) (str_bytes pragma) w1 of
                  (ret, w2) \<Rightarrow> if ret \<noteq> SQLITE_OK then Returned Qnil w2 else Returned Qt w2)))"

section \<open>Cursors\<close>

text \<open>
  The macro \<^verbatim>\<open>build_string\<close> evaluates its argument twice, so on a failed step
  \<^verbatim>\<open>sqlite3_errmsg\<close> is called twice: the first answer is the text, and the length of
  the second is the number of bytes read from it (C does not fix the order of the two
  calls; they are taken in the order written). Reading more bytes than the text has
  leaves the string: the call counts as crashed.
\<close>

definition Fsqlite_next :: "engine \<Rightarrow> emacs_value list \<Rightarrow> world \<Rightarrow> outcome" where
  "Fsqlite_next eng args w =
     (case lisp_statement_check (args ! 0) w of
        (None, w1) \<Rightarrow> Returned Qnil w1
      | (Some ptr, w1) \<Rightarrow>
          (case sqlite3_step eng (stmt (statements w1 ptr)) w1 of
             (ret, w2) \<Rightarrow>
               if ret \<noteq> SQLITE_ROW \<and> ret \<noteq> SQLITE_OK \<and> ret \<noteq> SQLITE_DONE then
                 (case sqlite3_errmsg eng (stmt_db (statements w2 ptr)) w2 of
                    (msg, w3) \<Rightarrow>
                      (case sqlite3_errmsg eng (stmt_db (statements w3 ptr)) w3 of
                         (msg1, w4) \<Rightarrow>
                           if length msg1 \<le> length msg then
                             Returned Qnil
                               (xsignal ''error'' [make_string (take (length msg1) msg)] w4)
                           else Crashed w4))
               else if ret = SQLITE_DONE then
                 Returned Qnil
                   (w2\<lparr>statements := (statements w2)(ptr := (statements w2 ptr)\<lparr>eof := True\<rparr>)\<rparr>)
               else Returned (row_to_value eng (trace w2) (stmt (statements w2 ptr))) w2))"

definition Fsqlite_columns :: "engine \<Rightarrow> emacs_value list \<Rightarrow> world \<Rightarrow> outcome" where
  "Fsqlite_columns eng args w =
     (case lisp_statement_check (args ! 0) w of
        (None, w1) \<Rightarrow> Returned Qnil w1
      | (Some ptr, w1) \<Rightarrow> Returned (column_names eng (trace w1) (stmt (statements w1 ptr))) w1)"

definition Fsqlite_more_p :: "engine \<Rightarrow> emacs_value list \<Rightarrow> world \<Rightarrow> outcome" where
  "Fsqlite_more_p eng args w =
     (case lisp_statement_check (args ! 0) w of
        (None, w1) \<Rightarrow> Returned Qnil w1
      | (Some ptr, w1) \<Rightarrow>
          if \<not> eof (statements w1 ptr) then Returned Qt w1 else Returned Qnil w1)"

definition Fsqlite_finalize :: "engine \<Rightarrow> emacs_value list \<Rightarrow> world \<Rightarrow> outcome" where
  "Fsqlite_finalize eng args w =
     (case lisp_statement_check (args ! 0) w of
        (None, w1) \<Rightarrow> Returned Qnil w1
      | (Some ptr, w1) \<Rightarrow>
          (let w2 = sqlite3_finalize eng (stmt (statements w1 ptr)) w1 in
           Returned Qt
             (w2\<lparr>statements := (statements w2)(ptr := (statements w2 ptr)\<lparr>stmt := None\<rparr>)\<rparr>)))"

definition Fsqlitep :: "emacs_value list \<Rightarrow> world \<Rightarrow> outcome" where
  "Fsqlitep args w =
     (let finalizer = user_ptr_check (args ! 0) in
      if finalizer = Some Lisp_sqlite_free then Returned Qt w
      else if finalizer = Some Lisp_statement_free then Returned Qt w
      else Returned Qnil w)"

section \<open>Sequences of calls\<close>

fun world_of :: "outcome \<Rightarrow> world" where
  "world_of (Returned v w) = w"
| "world_of (Crashed w) = w"

text \<open>
  The host raises the pending signal when a module function returns, so the next call
  starts with none pending.
\<close>

definition next_call :: "outcome \<Rightarrow> world" where
  "next_call r = (world_of r)\<lparr>pending := None\<rparr>"

datatype cursor_op = Op_next | Op_columns | Op_more_p | Op_finalize

fun cursor_call :: "engine \<Rightarrow> cursor_op \<Rightarrow> emacs_value \<Rightarrow> world \<Rightarrow> outcome" where
  "cursor_call eng Op_next v w = Fsqlite_next eng [v] w"
| "cursor_call eng Op_columns v w = Fsqlite_columns eng [v] w"
| "cursor_call eng Op_more_p v w = Fsqlite_more_p eng [v] w"
| "cursor_call eng Op_finalize v w = Fsqlite_finalize eng [v] w"

text \<open>A sequence of cursor operations, each with the value it is called on.\<close>

fun cursor_calls :: "engine \<Rightarrow> (cursor_op \<times> emacs_value) list \<Rightarrow> world \<Rightarrow> world" where
  "cursor_calls eng [] w = w"
| "cursor_calls eng ((op, v) # ops) w = cursor_calls eng ops (next_call (cursor_call eng op v w))"

text \<open>
  The state after \<open>n\<close> opens with no argument, each of which returns; \<open>None\<close> when
  one of them does not.
\<close>

fun anonymous_opens :: "engine \<Rightarrow> nat \<Rightarrow> world \<Rightarrow> world option" where
  "anonymous_opens eng 0 w = Some w"
| "anonymous_opens eng (Suc n) w =
     (case Fsqlite_open eng [] w of
        Returned v w1 \<Rightarrow> anonymous_opens eng n (next_call (Returned v w1))
      | Crashed w1 \<Rightarrow> None)"

text \<open>The database name that an open with no argument hands to the engine.\<close>

definition anonymous_name :: "engine \<Rightarrow> world \<Rightarrow> string" where
  "anonymous_name eng w =
     (case last (trace (world_of (Fsqlite_open eng [] w))) of
        Open_v2 name flags \<Rightarrow> name
      | _ \<Rightarrow> [])"

section \<open>Parameters bound, then read back\<close>










section \<open>Concrete worlds and engines\<close>

text \<open>A world with no handle open.\<close>

definition closed_world :: world where
  "closed_world =
     \<lparr>db_count = 0, sqlites = (\<lambda>p. \<lparr>db = None\<rparr>),
      statements = (\<lambda>p. \<lparr>stmt_db = None, stmt = None, eof = False\<rparr>),
      next_ptr = 2, pending = None, trace = []\<rparr>"

text \<open>
  A world with a connection open at address 0 (native pointer 7) and a cursor open on
  it at address 1 (native statement 9).
\<close>

definition open_world :: world where
  "open_world =
     closed_world\<lparr>sqlites := (\<lambda>p. \<lparr>db = (if p = 0 then Some 7 else None)\<rparr>),
                  statements := (\<lambda>p. \<lparr>stmt_db = (if p = 1 then Some 7 else None),
                                       stmt = (if p = 1 then Some 9 else None), eof = False\<rparr>)\<rparr>"

text \<open>
  An engine where every call succeeds: a statement completes at its first step and
  changes one row.
\<close>

definition plain_engine :: engine where
  "plain_engine =
     \<lparr>reply_open_v2 = (\<lambda>tr name flags. (SQLITE_OK, Some 7)),
      reply_prepare_v2 = (\<lambda>tr d sql nbyte. (SQLITE_OK, Some 9)),
      reply_bind = (\<lambda>tr s pos a. SQLITE_OK),
      reply_step = (\<lambda>tr s. SQLITE_DONE),
      reply_changes = (\<lambda>tr d. 1),
      reply_errmsg = (\<lambda>tr d. ''not an error''),
      reply_exec = (\<lambda>tr d sql. SQLITE_OK),
      column_count = (\<lambda>tr s. 1),
      column = (\<lambda>tr s i. Column_integer 1),
      column_name = (\<lambda>tr s i. ''a''),
      expand_file_name =
        (\<lambda>v. case v of Str s \<Rightarrow> Inr s
              | _ \<Rightarrow> Inl (Signal ''wrong-type-argument'' [Symbol ''stringp'', v])),
      encode_coding_string = (\<lambda>s cs. Inr s),
      concat =
        (\<lambda>p v. case v of
                  Str s \<Rightarrow> Inr (s\<lparr>str_bytes := p @ str_bytes s, str_length := length p + str_length s\<rparr>)
                | _ \<Rightarrow> Inl (Signal ''wrong-type-argument'' [Symbol ''sequencep'', v])),
      unfilled_buffer = [],
      sqlite_prepare_errdata = (\<lambda>ret. ''prepare failed'')\<rparr>"

text \<open>An engine whose statements deliver one row and are busy at the second step.\<close>

definition busy_engine :: engine where
  "busy_engine =
     plain_engine\<lparr>reply_step := (\<lambda>tr s. if Step s \<in> set tr then SQLITE_BUSY else SQLITE_ROW)\<rparr>"

text \<open>An engine on which every step finds the database busy.\<close>

definition busy_step_engine :: engine where
  "busy_step_engine =
     plain_engine\<lparr>reply_step := (\<lambda>tr s. SQLITE_BUSY),
                    reply_errmsg := (\<lambda>tr d. ''database is locked'')\<rparr>"


text \<open>An engine on which every prepare finds the database busy.\<close>

definition locked_engine :: engine where
  "locked_engine =
     plain_engine\<lparr>reply_prepare_v2 := (\<lambda>tr d sql nbyte. (SQLITE_BUSY, None)),
                    reply_errmsg := (\<lambda>tr d. ''database is locked'')\<rparr>"

text \<open>An engine on which every step fails with the status 19, a constraint violation.\<close>

definition failing_engine :: engine where
  "failing_engine =
     plain_engine\<lparr>reply_step := (\<lambda>tr s. 19),
                    reply_errmsg := (\<lambda>tr d. ''UNIQUE constraint failed'')\<rparr>"

section \<open>Basic facts\<close>

lemma build_string_eq [simp]: "build_string a = build_string b \<longleftrightarrow> a = b"
  by (auto simp: build_string_def make_string_def)

lemma TYPE_OF_make_string [simp]: "TYPE_OF (make_string s) = ''string''"
  by (simp add: make_string_def)

lemma string_contents_make_string [simp]: "string_contents (make_string s) = s"
  by (simp add: make_string_def)

section \<open>Handle validation\<close>

text \<open>
  Claim C4. Validation tells four cases apart. A handle of the expected kind that is
  still open yields its struct, which holds the native resource; one that is closed
  fails with the closed error of its kind; a handle of the other kind fails with the
  invalid-object error under the symbol \<^verbatim>\<open>error\<close>, not with \<^verbatim>\<open>wrong-type-argument\<close>;
  any value that carries neither finalizer of this module fails with
  \<^verbatim>\<open>wrong-type-argument\<close>. The three failures of each check are pairwise distinct.
\<close>

theorem handle_validation_cases:
  assumes "pending w = None"
  shows
   "(db (sqlites w p) \<noteq> None \<longrightarrow>
       lisp_sqlite_check (User_ptr (Some Lisp_sqlite_free) p) w = (Some p, w)) \<and>
    (db (sqlites w p) = None \<longrightarrow>
       lisp_sqlite_check (User_ptr (Some Lisp_sqlite_free) p) w =
         (None, w\<lparr>pending := Some (Signal ''error'' [build_string ''Database closed''])\<rparr>)) \<and>
    lisp_sqlite_check (User_ptr (Some Lisp_statement_free) p) w =
      (None, w\<lparr>pending := Some (Signal ''error'' [build_string ''Invalid database object''])\<rparr>) \<and>
    (user_ptr_check v \<noteq> Some Lisp_sqlite_free \<and> user_ptr_check v \<noteq> Some Lisp_statement_free \<longrightarrow>
       lisp_sqlite_check v w =
         (None, w\<lparr>pending := Some (Signal ''wrong-type-argument'' [Symbol ''sqlitep'', v])\<rparr>)) \<and>
    (stmt (statements w p) \<noteq> None \<longrightarrow>
       lisp_statement_check (User_ptr (Some Lisp_statement_free) p) w = (Some p, w)) \<and>
    (stmt (statements w p) = None \<longrightarrow>
       lisp_statement_check (User_ptr (Some Lisp_statement_free) p) w =
         (None, w\<lparr>pending := Some (Signal ''error'' [build_string ''Statement closed''])\<rparr>)) \<and>
    lisp_statement_check (User_ptr (Some Lisp_sqlite_free) p) w =
      (None, w\<lparr>pending := Some (Signal ''error'' [build_string ''Invalid set object''])\<rparr>) \<and>
    (user_ptr_check v \<noteq> Some Lisp_sqlite_free \<and> user_ptr_check v \<noteq> Some Lisp_statement_free \<longrightarrow>
       lisp_statement_check v w =
         (None, w\<lparr>pending := Some (Signal ''wrong-type-argument'' [Symbol ''sqlitep'', v])\<rparr>)) \<and>
    Signal ''error'' [build_string ''Database closed''] \<noteq>
      Signal ''error'' [build_string ''Invalid database object''] \<and>
    Signal ''error'' [build_string ''Database closed''] \<noteq>
      Signal ''wrong-type-argument'' [Symbol ''sqlitep'', v] \<and>
    Signal ''error'' [build_string ''Invalid database object''] \<noteq>
      Signal ''wrong-type-argument'' [Symbol ''sqlitep'', v] \<and>
    Signal ''error'' [build_string ''Statement closed''] \<noteq>
      Signal ''error'' [build_string ''Invalid set object''] \<and>
    Signal ''error'' [build_string ''Statement closed''] \<noteq>
      Signal ''wrong-type-argument'' [Symbol ''sqlitep'', v] \<and>
    Signal ''error'' [build_string ''Invalid set object''] \<noteq>
      Signal ''wrong-type-argument'' [Symbol ''sqlitep'', v]"
  using assms
  by (simp add: lisp_sqlite_check_def lisp_statement_check_def user_ptr_check_def TYPEP_def
      xsignal_def)

theorem handle_validation_cases_witness:
  "pending open_world = None \<and>
   lisp_sqlite_check (User_ptr (Some Lisp_sqlite_free) 0) open_world = (Some 0, open_world) \<and>
   lisp_sqlite_check (User_ptr (Some Lisp_sqlite_free) 5) open_world =
     (None, open_world\<lparr>pending := Some (Signal ''error'' [build_string ''Database closed''])\<rparr>) \<and>
   lisp_sqlite_check (User_ptr (Some Lisp_statement_free) 1) open_world =
     (None, open_world\<lparr>pending := Some (Signal ''error'' [build_string ''Invalid database object''])\<rparr>) \<and>
   lisp_sqlite_check (Integer 3) open_world =
     (None, open_world\<lparr>pending := Some (Signal ''wrong-type-argument'' [Symbol ''sqlitep'', Integer 3])\<rparr>) \<and>
   lisp_statement_check (User_ptr (Some Lisp_statement_free) 1) open_world = (Some 1, open_world) \<and>
   lisp_statement_check (User_ptr (Some Lisp_statement_free) 5) open_world =
     (None, open_world\<lparr>pending := Some (Signal ''error'' [build_string ''Statement closed''])\<rparr>) \<and>
   lisp_statement_check (Integer 3) open_world =
     (None, open_world\<lparr>pending := Some (Signal ''wrong-type-argument'' [Symbol ''sqlitep'', Integer 3])\<rparr>)"
proof -
  have p: "pending open_world = None"
    by (simp add: open_world_def closed_world_def)
  have a: "db (sqlites open_world 0) \<noteq> None" "db (sqlites open_world 5) = None"
    "stmt (statements open_world 1) \<noteq> None" "stmt (statements open_world 5) = None"
    by (simp_all add: open_world_def closed_world_def)
  have u: "user_ptr_check (Integer 3) \<noteq> Some Lisp_sqlite_free \<and>
           user_ptr_check (Integer 3) \<noteq> Some Lisp_statement_free"
    by (simp add: user_ptr_check_def TYPEP_def)
  show ?thesis
    using handle_validation_cases [OF p, of 0 "Integer 3"]
      handle_validation_cases [OF p, of 5 "Integer 3"]
      handle_validation_cases [OF p, of 1 "Integer 3"] p a u
    by simp
qed

section \<open>Operations on a closed connection\<close>

text \<open>
  Close, execute, select, commit, rollback and pragma test the result of the check: on
  a closed connection they return with the closed error pending and make no native call.
\<close>

lemma closed_connection_rejected:
  assumes "db (sqlites w p) = None" and "pending w = None"
    and "args ! 0 = User_ptr (Some Lisp_sqlite_free) p"
  shows "Fsqlite_close eng args w =
           Returned Qnil (w\<lparr>pending := Some (Signal ''error'' [build_string ''Database closed''])\<rparr>)"
    and "Fsqlite_execute eng args w =
           Returned Qnil (w\<lparr>pending := Some (Signal ''error'' [build_string ''Database closed''])\<rparr>)"
    and "Fsqlite_select eng args w =
           Some (Returned Qnil
             (w\<lparr>pending := Some (Signal ''error'' [build_string ''Database closed''])\<rparr>))"
    and "Fsqlite_commit eng args w =
           Returned Qnil (w\<lparr>pending := Some (Signal ''error'' [build_string ''Database closed''])\<rparr>)"
    and "Fsqlite_rollback eng args w =
           Returned Qnil (w\<lparr>pending := Some (Signal ''error'' [build_string ''Database closed''])\<rparr>)"
    and "Fsqlite_pragma eng args w =
           Returned Qnil (w\<lparr>pending := Some (Signal ''error'' [build_string ''Database closed''])\<rparr>)"
  using assms
  by (simp_all add: Fsqlite_close_def Fsqlite_execute_def Fsqlite_select_def Fsqlite_commit_def
      Fsqlite_rollback_def Fsqlite_pragma_def lisp_sqlite_check_def user_ptr_check_def TYPEP_def
      xsignal_def)

text \<open>
  Claim C3. After a successful close, every operation on the handle should raise the
  closed error before any native call. \<^verbatim>\<open>Fsqlite_transaction\<close> does not: the check
  signals and returns NULL, and the function then reads \<^verbatim>\<open>ptr->db\<close> through that null
  pointer instead of returning.
\<close>

theorem transaction_after_close_crashes:
  "Fsqlite_close plain_engine [User_ptr (Some Lisp_sqlite_free) 0] open_world =
     Returned Qt (open_world\<lparr>sqlites := (\<lambda>p. \<lparr>db = None\<rparr>), trace := [Close (Some 7)]\<rparr>) \<and>
   Fsqlite_transaction plain_engine [User_ptr (Some Lisp_sqlite_free) 0]
       (open_world\<lparr>sqlites := (\<lambda>p. \<lparr>db = None\<rparr>), trace := [Close (Some 7)]\<rparr>) =
     Crashed (open_world\<lparr>sqlites := (\<lambda>p. \<lparr>db = None\<rparr>), trace := [Close (Some 7)],
                pending := Some (Signal ''error'' [build_string ''Database closed''])\<rparr>)"
  by (auto simp add: Fsqlite_close_def Fsqlite_transaction_def lisp_sqlite_check_def
      user_ptr_check_def TYPEP_def xsignal_def sqlite3_close_def native_def open_world_def
      closed_world_def fun_eq_iff)

section \<open>Failures after a statement is prepared\<close>

text \<open>
  Claim C1. In the eager modes a step status other than row and done should raise a
  failure. The loop of \<^verbatim>\<open>Fsqlite_select\<close> only tests for \<^verbatim>\<open>SQLITE_ROW\<close>: when the second
  step answers \<^verbatim>\<open>SQLITE_BUSY\<close>, the call returns the one row read so far with no signal
  pending. The statement is finalized.
\<close>

theorem eager_select_swallows_busy:
  "Fsqlite_select busy_engine [User_ptr (Some Lisp_sqlite_free) 0, make_string ''select a from t'']
       open_world =
     Some (Returned (list_value [list_value [Integer 1]])
       (open_world\<lparr>trace := [Prepare_v2 (Some 7) ''select a from t'' 16, Step (Some 9),
                              Step (Some 9), Finalize (Some 9)]\<rparr>)) \<and>
   pending open_world = None"
  by (simp add: Fsqlite_select_def lisp_sqlite_check_def user_ptr_check_def TYPEP_def
      CHECK_STRING_def sqlite3_prepare_v2_def sqlite3_step_def sqlite3_finalize_def native_def
      select_loop.simps busy_engine_def plain_engine_def open_world_def closed_world_def
      row_to_value_def nreverse_def column_to_value_def make_int_def)

text \<open>
  On a cursor, \<^verbatim>\<open>Fsqlite_next\<close> signals when the same engine answers the same status.
\<close>

lemma next_signals_busy:
  "Fsqlite_next busy_engine [User_ptr (Some Lisp_statement_free) 1]
       (open_world\<lparr>trace := [Step (Some 9)]\<rparr>) =
     Returned Qnil
       (open_world\<lparr>trace := [Step (Some 9), Step (Some 9), Errmsg (Some 7), Errmsg (Some 7)],
                   pending := Some (Signal ''error'' [build_string ''not an error''])\<rparr>)"
  by (simp add: Fsqlite_next_def lisp_statement_check_def user_ptr_check_def TYPEP_def
      xsignal_def sqlite3_step_def sqlite3_errmsg_def native_def build_string_def busy_engine_def
      plain_engine_def
      open_world_def closed_world_def)

text \<open>
  Claim C2. A statement that was prepared should be finalized before a later failure
  is raised. When binding fails in \<^verbatim>\<open>Fsqlite_execute\<close> (here on a symbol that cannot be
  bound) the function jumps to \<^verbatim>\<open>exit\<close> at once: the native calls made are the prepare
  and the reset, and no finalize.
\<close>

theorem execute_bind_failure_leaks:
  "Fsqlite_execute plain_engine
       [User_ptr (Some Lisp_sqlite_free) 0, make_string ''insert into t values (?)'',
        Vector [Symbol ''foo'']] open_world =
     Returned Qnil
       (open_world\<lparr>trace := [Prepare_v2 (Some 7) ''insert into t values (?)'' (- 1), Reset (Some 9)],
                   pending := Some (Signal ''error'' [build_string ''invalid argument''])\<rparr>)"
  by (simp add: Fsqlite_execute_def lisp_sqlite_check_def user_ptr_check_def TYPEP_def
      CHECK_STRING_def NILP_def xsignal_def sqlite3_prepare_v2_def sqlite3_reset_def native_def
      plain_engine_def open_world_def closed_world_def bind_values_def bind_value_def
      execute_exit_def)

text \<open>On the same arguments \<^verbatim>\<open>Fsqlite_select\<close> finalizes the statement before it signals.\<close>

lemma select_bind_failure_finalizes:
  "Fsqlite_select plain_engine
       [User_ptr (Some Lisp_sqlite_free) 0, make_string ''insert into t values (?)'',
        Vector [Symbol ''foo'']] open_world =
     Some (Returned Qnil
       (open_world\<lparr>trace := [Prepare_v2 (Some 7) ''insert into t values (?)'' 25, Reset (Some 9),
                              Finalize (Some 9)],
                   pending := Some (Signal ''error'' [build_string ''invalid argument''])\<rparr>))"
  by (simp add: Fsqlite_select_def lisp_sqlite_check_def user_ptr_check_def TYPEP_def
      CHECK_STRING_def NILP_def xsignal_def sqlite3_prepare_v2_def sqlite3_reset_def
      sqlite3_finalize_def native_def plain_engine_def open_world_def closed_world_def
      bind_values_def bind_value_def select_exit_def)

section \<open>The end-of-data flag\<close>

lemma statements_xsignal [simp]: "statements (xsignal a b w) = statements w"
  by (simp add: xsignal_def split: option.splits)

lemma trace_xsignal [simp]: "trace (xsignal a b w) = trace w"
  by (simp add: xsignal_def split: option.splits)

lemma lisp_statement_check_Some:
  "lisp_statement_check v w = (Some ptr, w1) \<Longrightarrow>
     w1 = w \<and> stmt (statements w ptr) \<noteq> None \<and> v = User_ptr (Some Lisp_statement_free) ptr"
  by (cases v) (auto simp: lisp_statement_check_def user_ptr_check_def TYPEP_def Let_def
      split: if_splits)

lemma lisp_statement_check_None:
  "lisp_statement_check v w = (None, w1) \<Longrightarrow> statements w1 = statements w \<and> trace w1 = trace w"
  by (auto simp: lisp_statement_check_def Let_def split: if_splits)

lemma cursor_call_eof:
  assumes "eof (statements w p)"
  shows "eof (statements (next_call (cursor_call eng op v w)) p)"
proof (cases "lisp_statement_check v w")
  case (Pair r w1)
  show ?thesis
  proof (cases r)
    case None
    with Pair assms lisp_statement_check_None [of v w w1] show ?thesis
      by (cases op)
        (simp_all add: next_call_def Fsqlite_next_def Fsqlite_columns_def Fsqlite_more_p_def
          Fsqlite_finalize_def)
  next
    case (Some ptr)
    with Pair lisp_statement_check_Some [of v w ptr w1] have w1: "w1 = w" by simp
    from Pair Some w1 assms show ?thesis
      by (cases op)
        (auto simp add: next_call_def Fsqlite_next_def Fsqlite_columns_def Fsqlite_more_p_def
          Fsqlite_finalize_def sqlite3_step_def sqlite3_errmsg_def sqlite3_finalize_def
          native_def Let_def)
  qed
qed

lemma cursor_calls_eof:
  "eof (statements w p) \<Longrightarrow> eof (statements (cursor_calls eng ops w) p)"
proof (induction ops arbitrary: w)
  case Nil
  then show ?case by simp
next
  case (Cons x ops)
  obtain op v where x: "x = (op, v)" by (cases x)
  from Cons.prems have "eof (statements (next_call (cursor_call eng op v w)) p)"
    by (rule cursor_call_eof)
  then show ?case
    using Cons.IH x by simp
qed

lemma more_p_trace: "trace (world_of (Fsqlite_more_p eng [v] w)) = trace w"
proof (cases "lisp_statement_check v w")
  case (Pair r w1)
  then show ?thesis
    using lisp_statement_check_None [of v w w1] lisp_statement_check_Some [of v w _ w1]
    by (cases r) (auto simp: Fsqlite_more_p_def)
qed

text \<open>
  Claim C8. Once the end-of-data flag of a cursor is true it stays true under every
  sequence of cursor operations, on this or any other value; \<^verbatim>\<open>Fsqlite_next\<close> sets it
  when the step answers done. On an open cursor \<^verbatim>\<open>Fsqlite_more_p\<close> returns the
  negation of the flag and leaves the state as it is, and on any value it makes no native
  call.
\<close>

theorem eof_permanent_and_has_more:
  "(eof (statements w p) \<longrightarrow> eof (statements (cursor_calls eng ops w) p)) \<and>
   (stmt (statements w p) \<noteq> None \<and>
    reply_step eng (trace w) (stmt (statements w p)) = SQLITE_DONE \<longrightarrow>
      eof (statements (world_of (Fsqlite_next eng [User_ptr (Some Lisp_statement_free) p] w)) p)) \<and>
   (stmt (statements w p) \<noteq> None \<longrightarrow>
      Fsqlite_more_p eng [User_ptr (Some Lisp_statement_free) p] w =
        Returned (if eof (statements w p) then Qnil else Qt) w) \<and>
   trace (world_of (Fsqlite_more_p eng [v] w)) = trace w"
proof -
  have a: "eof (statements w p) \<longrightarrow> eof (statements (cursor_calls eng ops w) p)"
    by (simp add: cursor_calls_eof)
  have b: "stmt (statements w p) \<noteq> None \<and>
    reply_step eng (trace w) (stmt (statements w p)) = SQLITE_DONE \<longrightarrow>
      eof (statements (world_of (Fsqlite_next eng [User_ptr (Some Lisp_statement_free) p] w)) p)"
    by (simp add: Fsqlite_next_def lisp_statement_check_def user_ptr_check_def TYPEP_def
        sqlite3_step_def native_def)
  have c: "stmt (statements w p) \<noteq> None \<longrightarrow>
      Fsqlite_more_p eng [User_ptr (Some Lisp_statement_free) p] w =
        Returned (if eof (statements w p) then Qnil else Qt) w"
    by (simp add: Fsqlite_more_p_def lisp_statement_check_def user_ptr_check_def TYPEP_def)
  show ?thesis
    using a b c more_p_trace by blast
qed

theorem eof_permanent_and_has_more_witness:
  "eof (statements (world_of (Fsqlite_next plain_engine [User_ptr (Some Lisp_statement_free) 1] open_world)) 1) \<and>
   eof (statements
     (cursor_calls plain_engine
        [(Op_next, User_ptr (Some Lisp_statement_free) 1),
         (Op_more_p, User_ptr (Some Lisp_statement_free) 1),
         (Op_columns, User_ptr (Some Lisp_statement_free) 1),
         (Op_finalize, User_ptr (Some Lisp_statement_free) 1),
         (Op_next, User_ptr (Some Lisp_statement_free) 1)]
        (world_of (Fsqlite_next plain_engine [User_ptr (Some Lisp_statement_free) 1] open_world))) 1) \<and>
   Fsqlite_more_p plain_engine [User_ptr (Some Lisp_statement_free) 1] open_world =
     Returned Qt open_world \<and>
   Fsqlite_more_p plain_engine [User_ptr (Some Lisp_statement_free) 1]
       (world_of (Fsqlite_next plain_engine [User_ptr (Some Lisp_statement_free) 1] open_world)) =
     Returned Qnil
       (world_of (Fsqlite_next plain_engine [User_ptr (Some Lisp_statement_free) 1] open_world))"
proof -
  let ?h = "User_ptr (Some Lisp_statement_free) 1"
  let ?w = "world_of (Fsqlite_next plain_engine [?h] open_world)"
  have o: "stmt (statements open_world 1) \<noteq> None" "\<not> eof (statements open_world 1)"
    by (simp_all add: open_world_def closed_world_def)
  have d: "reply_step plain_engine (trace open_world) (stmt (statements open_world 1)) = SQLITE_DONE"
    by (simp add: plain_engine_def)
  have e: "eof (statements ?w 1)"
    using eof_permanent_and_has_more [of open_world 1 plain_engine "[]" ?h] o d by simp
  have s: "stmt (statements ?w 1) \<noteq> None"
    by (simp add: Fsqlite_next_def lisp_statement_check_def user_ptr_check_def TYPEP_def
        sqlite3_step_def native_def plain_engine_def open_world_def
        closed_world_def)
  show ?thesis
    using e s o
      eof_permanent_and_has_more [of ?w 1 plain_engine
        "[(Op_next, ?h), (Op_more_p, ?h), (Op_columns, ?h), (Op_finalize, ?h), (Op_next, ?h)]" ?h]
      eof_permanent_and_has_more [of open_world 1 plain_engine "[]" ?h]
    by simp
qed

section \<open>Blobs that are not unibyte\<close>

lemma proper_length_list_value [simp]: "proper_length (list_value vs) = Some (length vs)"
  by (induction vs) simp_all

lemma lisp_length_list_value [simp]: "lisp_length (list_value vs) w = (length vs, w)"
  by (cases vs) (simp_all add: lisp_length_def)

lemma TYPE_OF_list_value [simp]: "TYPE_OF (list_value vs) \<noteq> ''vector''"
  by (cases vs) simp_all

text \<open>The loop over a vector reads the elements from the index on, and only those it visits.\<close>

lemma vector_loop_take:
  "i + left \<le> k \<Longrightarrow>
     bind_values_loop eng d s True (Vector (take k vs)) i left w =
     bind_values_loop eng d s True (Vector vs) i left w"
proof (induction left arbitrary: i w)
  case 0
  then show ?case by simp
next
  case (Suc left)
  then have "i < k" and "Suc i + left \<le> k" by simp_all
  with Suc.IH [of "Suc i"] show ?case
    by (auto split: prod.splits option.splits)
qed

lemma vector_loop_split:
  "bind_values_loop eng d s True values i (a + b) w =
     (case bind_values_loop eng d s True values i a w of
        (Some err, w1) \<Rightarrow> (Some err, w1)
      | (None, w1) \<Rightarrow> bind_values_loop eng d s True values (i + a) b w1)"
proof (induction a arbitrary: i w)
  case 0
  then show ?case by simp
next
  case (Suc a)
  show ?case
    using Suc.IH [of "Suc i"] by (simp split: prod.splits option.splits)
qed

lemma list_loop_split:
  "bind_values_loop eng d s False (list_value (xs @ ys)) i (length xs + b) w =
     (case bind_values_loop eng d s False (list_value xs) i (length xs) w of
        (Some err, w1) \<Rightarrow> (Some err, w1)
      | (None, w1) \<Rightarrow> bind_values_loop eng d s False (list_value ys) (i + length xs) b w1)"
proof (induction xs arbitrary: i w)
  case Nil
  then show ?case by simp
next
  case (Cons x xs)
  show ?case
    using Cons.IH [of "Suc i"] by (simp add: car_def cdr_def split: prod.splits option.splits)
qed

lemma bind_value_bad_blob:
  assumes "pending w = None" and "str_coding str = Some ''binary''"
    and "length (str_bytes str) \<noteq> str_length str"
  shows "bind_value eng d s i (Str str) w =
           (Some [], w\<lparr>pending := Some (Signal ''error'' [build_string ''BLOB values must be unibyte''])\<rparr>)"
  using assms by (simp add: bind_value_def xsignal_def)

lemma pending_reset [simp]: "pending (sqlite3_reset eng s w) = pending w"
  by (simp add: sqlite3_reset_def native_def)

text \<open>
  Claim C10. When the element at index \<open>k\<close> of the values is a string marked
  \<^verbatim>\<open>binary\<close> whose byte length differs from its character count, and the elements
  before it were bound, binding returns a message with the invalid-blob error pending
  and the state is the one reached after binding the elements before it: neither this
  position nor any later one is bound. This holds for a vector and for a list.
\<close>

theorem blob_length_mismatch_aborts:
  assumes "k < length vs" and "vs ! k = Str str"
    and "str_coding str = Some ''binary''" and "length (str_bytes str) \<noteq> str_length str"
    and "pending w1 = None"
  shows
    "(bind_values eng d s (Vector (take k vs)) w = (None, w1) \<longrightarrow>
        bind_values eng d s (Vector vs) w =
          (Some [], w1\<lparr>pending := Some (Signal ''error'' [build_string ''BLOB values must be unibyte''])\<rparr>)) \<and>
     (bind_values eng d s (list_value (take k vs)) w = (None, w1) \<longrightarrow>
        bind_values eng d s (list_value vs) w =
          (Some [], w1\<lparr>pending := Some (Signal ''error'' [build_string ''BLOB values must be unibyte''])\<rparr>))"
proof -
  let ?bad = "(Some [], w1\<lparr>pending := Some (Signal ''error'' [build_string ''BLOB values must be unibyte''])\<rparr>)"
  let ?w0 = "sqlite3_reset eng s w"
  obtain rest where len: "length vs = k + Suc rest"
    using assms(1) by (metis less_iff_Suc_add add_Suc_right)
  have bad: "bind_value eng d s k (vs ! k) w1 = ?bad"
    using assms by (simp add: bind_value_bad_blob)
  have vec: "bind_values eng d s (Vector vs) w = ?bad"
    if "bind_values eng d s (Vector (take k vs)) w = (None, w1)"
  proof -
    from that assms(1) have "bind_values_loop eng d s True (Vector (take k vs)) 0 k ?w0 = (None, w1)"
      by (simp add: bind_values_def TYPEP_def min_def)
    then have pre: "bind_values_loop eng d s True (Vector vs) 0 k ?w0 = (None, w1)"
      by (simp add: vector_loop_take)
    have "bind_values_loop eng d s True (Vector vs) 0 (k + Suc rest) ?w0 =
            bind_values_loop eng d s True (Vector vs) (0 + k) (Suc rest) w1"
      using pre by (simp only: vector_loop_split) simp
    also have "\<dots> = ?bad"
      using bad assms(1) by simp
    finally have "bind_values_loop eng d s True (Vector vs) 0 (k + Suc rest) ?w0 = ?bad" .
    then show ?thesis
      by (simp add: bind_values_def TYPEP_def len)
  qed
  have lst: "bind_values eng d s (list_value vs) w = ?bad"
    if "bind_values eng d s (list_value (take k vs)) w = (None, w1)"
  proof -
    define xs where "xs = take k vs"
    define ys where "ys = drop (Suc k) vs"
    have lk: "length xs = k"
      using assms(1) by (simp add: xs_def)
    have vs: "vs = xs @ Str str # ys"
      using id_take_nth_drop [OF assms(1)] assms(2) by (simp add: xs_def ys_def)
    have ly: "length ys = rest"
      using len lk by (simp add: vs)
    from that have pre:
      "bind_values_loop eng d s False (list_value xs) 0 (length xs) ?w0 = (None, w1)"
      by (simp add: bind_values_def TYPEP_def xs_def)
    have bad': "bind_value eng d s k (Str str) w1 = ?bad"
      using bad assms(2) by simp
    have "bind_values_loop eng d s False (list_value (xs @ Str str # ys)) 0
            (length xs + Suc rest) ?w0 =
          bind_values_loop eng d s False (list_value (Str str # ys)) (0 + length xs) (Suc rest) w1"
      using pre by (simp only: list_loop_split) simp
    also have "\<dots> = ?bad"
      using bad' lk by (simp add: car_def cdr_def)
    finally have "bind_values_loop eng d s False (list_value (xs @ Str str # ys)) 0
        (length xs + Suc rest) ?w0 = ?bad" .
    then show ?thesis
      by (simp add: bind_values_def TYPEP_def vs lk ly)
  qed
  show ?thesis
    using vec lst by blast
qed

theorem blob_length_mismatch_aborts_witness:
  "bind_values plain_engine (Some 7) (Some 9)
       (Vector [Integer 1,
                Str \<lparr>str_bytes = [CHR 0xC3, CHR 0xA9], str_length = 1, str_coding = Some ''binary''\<rparr>,
                Integer 2]) open_world =
     (Some [],
      open_world\<lparr>trace := [Reset (Some 9), Bind (Some 9) 1 (Bind_int64 1)],
                 pending := Some (Signal ''error'' [build_string ''BLOB values must be unibyte''])\<rparr>) \<and>
   bind_values plain_engine (Some 7) (Some 9)
       (list_value [Integer 1,
                Str \<lparr>str_bytes = [CHR 0xC3, CHR 0xA9], str_length = 1, str_coding = Some ''binary''\<rparr>,
                Integer 2]) open_world =
     (Some [],
      open_world\<lparr>trace := [Reset (Some 9), Bind (Some 9) 1 (Bind_int64 1)],
                 pending := Some (Signal ''error'' [build_string ''BLOB values must be unibyte''])\<rparr>)"
proof -
  let ?str = "\<lparr>str_bytes = [CHR 0xC3, CHR 0xA9], str_length = 1, str_coding = Some ''binary''\<rparr>"
  let ?vs = "[Integer 1, Str ?str, Integer 2]"
  let ?w1 = "open_world\<lparr>trace := [Reset (Some 9), Bind (Some 9) 1 (Bind_int64 1)]\<rparr>"
  have k: "1 < length ?vs" "?vs ! 1 = Str ?str" "str_coding ?str = Some ''binary''"
    "length (str_bytes ?str) \<noteq> str_length ?str" "pending ?w1 = None"
    by (simp_all add: open_world_def closed_world_def)
  have v: "bind_values plain_engine (Some 7) (Some 9) (Vector (take 1 ?vs)) open_world = (None, ?w1)"
    by (simp add: bind_values_def bind_value_def bind_status_def XFIXNUM_def TYPEP_def
        sqlite3_reset_def sqlite3_bind_def native_def plain_engine_def open_world_def closed_world_def)
  have l: "bind_values plain_engine (Some 7) (Some 9) (list_value (take 1 ?vs)) open_world = (None, ?w1)"
    by (simp add: bind_values_def bind_value_def bind_status_def XFIXNUM_def TYPEP_def
        sqlite3_reset_def sqlite3_bind_def native_def lisp_length_def car_def cdr_def plain_engine_def open_world_def closed_world_def)
  show ?thesis
    using blob_length_mismatch_aborts [OF k, of plain_engine "Some 7" "Some 9" open_world] v l
    by simp
qed

section \<open>Names of anonymous databases\<close>

lemma digits_nonempty: "digits n \<noteq> []"
  by (subst digits.simps) simp

lemma digits_range: "c \<in> set (digits n) \<Longrightarrow> 48 \<le> (of_char c :: nat) \<and> (of_char c :: nat) \<le> 57"
proof (induction n rule: digits.induct)
  case (1 n)
  show ?case
  proof (cases "n < 10")
    case True
    with "1.prems" show ?thesis
      by (subst (asm) digits.simps) auto
  next
    case False
    have "n mod 10 < 10" by simp
    then have "(48 + n mod 10) mod 256 = 48 + n mod 10" by simp
    with False "1.prems" "1.IH" show ?thesis
      by (subst (asm) digits.simps) auto
  qed
qed

lemma digits_inj: "digits n = digits m \<Longrightarrow> n = m"
proof (induction n arbitrary: m rule: digits.induct)
  case (1 n)
  show ?case
  proof (cases "n < 10")
    case n: True
    show ?thesis
    proof (cases "m < 10")
      case True
      with n "1.prems" have "char_of (48 + n) = char_of (48 + m)"
        by (simp add: digits.simps [of n] digits.simps [of m])
      then have "(48 + n) mod 256 = (48 + m) mod 256" by simp
      with n True show ?thesis by simp
    next
      case False
      with n "1.prems" digits_nonempty [of "m div 10"] show ?thesis
        by (simp add: digits.simps [of n] digits.simps [of m] append_eq_Cons_conv)
    qed
  next
    case n: False
    show ?thesis
    proof (cases "m < 10")
      case True
      with n "1.prems" digits_nonempty [of "n div 10"] show ?thesis
        by (simp add: digits.simps [of n] digits.simps [of m] append_eq_Cons_conv Cons_eq_append_conv)
    next
      case False
      with n "1.prems" have eq: "digits (n div 10) = digits (m div 10)"
        and ch: "char_of (48 + n mod 10) = char_of (48 + m mod 10)"
        by (simp_all add: digits.simps [of n] digits.simps [of m])
      from n eq have d: "n div 10 = m div 10" by (rule "1.IH")
      have "n mod 10 < 10" "m mod 10 < 10" by simp_all
      with ch have "n mod 10 = m mod 10" by simp
      with d show ?thesis
        by (metis div_mult_mod_eq)
    qed
  qed
qed

lemma format_d_inj: "format_d a = format_d b \<Longrightarrow> a = b"
proof -
  assume eq: "format_d a = format_d b"
  have no_minus: "CHR ''-'' # xs \<noteq> digits n" for xs n
  proof
    assume "CHR ''-'' # xs = digits n"
    then have "CHR ''-'' \<in> set (digits n)" by (metis list.set_intros(1))
    then show False using digits_range [of "CHR ''-''" n] by simp
  qed
  show ?thesis
  proof (cases "a < 0")
    case a: True
    show ?thesis
    proof (cases "b < 0")
      case True
      with a eq have "nat (- a) = nat (- b)"
        by (simp add: format_d_def digits_inj)
      with a True show ?thesis by simp
    next
      case False
      with a eq no_minus show ?thesis by (simp add: format_d_def)
    qed
  next
    case a: False
    show ?thesis
    proof (cases "b < 0")
      case True
      with a eq no_minus [of "digits (nat (- b))" "nat a"] show ?thesis
        by (simp add: format_d_def)
    next
      case False
      with a eq have "nat a = nat b" by (simp add: format_d_def digits_inj)
      with a False show ?thesis by simp
    qed
  qed
qed

lemma sint_max_int: "sint (c :: 32 word) = 2147483647 \<longleftrightarrow> c = 2147483647"
proof
  assume "sint c = 2147483647"
  then have "sint c = sint (2147483647 :: 32 word)" by simp
  then show "c = 2147483647" by (rule signed_word_eqI)
qed simp

lemma sint_succ: "c \<noteq> (0x7FFFFFFF :: 32 word) \<Longrightarrow> sint (c + 1) = sint c + 1"
proof -
  assume "c \<noteq> 0x7FFFFFFF"
  then have "sint c \<noteq> 2 ^ 31 - 1" by (simp add: sint_max_int)
  moreover have "sint c < 2 ^ 31" "- (2 ^ 31) \<le> sint c"
    using sint_lt [of c] sint_ge [of c] by simp_all
  ultimately show ?thesis
    by (simp add: sint_word_add signed_take_bit_int_eq_self)
qed

lemma anonymous_open_world:
  assumes "db_count w \<noteq> 0x7FFFFFFF"
  shows "\<exists>v w1. Fsqlite_open eng [] w = Returned v w1 \<and> db_count w1 = db_count w + 1 \<and>
     (\<exists>flags. trace w1 = trace w @ [Open_v2 ('':memory:'' @ format_d (sint (db_count w + 1))) flags])"
  using assms
  by (simp add: Fsqlite_open_def open_database_def sqlite3_open_v2_def native_def
      lisp_sqlite_make_def Let_def split: prod.splits)

lemma anonymous_open_overflow: "db_count w = 0x7FFFFFFF \<Longrightarrow> Fsqlite_open eng [] w = Crashed w"
  by (simp add: Fsqlite_open_def)

lemma anonymous_name_eq:
  "db_count w \<noteq> 0x7FFFFFFF \<Longrightarrow>
     anonymous_name eng w = '':memory:'' @ format_d (sint (db_count w) + 1)"
  using anonymous_open_world [of w eng] by (auto simp: anonymous_name_def sint_succ)

lemma anonymous_opens_count:
  "anonymous_opens eng n w = Some w1 \<Longrightarrow> sint (db_count w1) = sint (db_count w) + int n"
proof (induction n arbitrary: w)
  case 0
  then show ?case by simp
next
  case (Suc n)
  show ?case
  proof (cases "db_count w = 0x7FFFFFFF")
    case True
    with Suc.prems show ?thesis by (simp add: anonymous_open_overflow)
  next
    case False
    from anonymous_open_world [OF False, of eng] obtain v w2 where
      o: "Fsqlite_open eng [] w = Returned v w2" and c: "db_count w2 = db_count w + 1" by blast
    with Suc.prems have "anonymous_opens eng n (next_call (Returned v w2)) = Some w1" by simp
    from Suc.IH [OF this] c False show ?thesis
      by (simp add: next_call_def sint_succ)
  qed
qed

lemma anonymous_opens_reach:
  "sint (db_count w) + int n \<le> 2 ^ 31 - 1 \<Longrightarrow> \<exists>w1. anonymous_opens eng n w = Some w1"
proof (induction n arbitrary: w)
  case 0
  then show ?case by simp
next
  case (Suc n)
  then have "sint (db_count w) \<noteq> 2 ^ 31 - 1" by simp
  then have ne: "db_count w \<noteq> 0x7FFFFFFF" by (simp add: sint_max_int)
  from anonymous_open_world [OF ne, of eng] obtain v w2 where
    o: "Fsqlite_open eng [] w = Returned v w2" and c: "db_count w2 = db_count w + 1" by blast
  have "sint (db_count (next_call (Returned v w2))) + int n \<le> 2 ^ 31 - 1"
    using Suc.prems c ne by (simp add: next_call_def sint_succ)
  from Suc.IH [OF this] o show ?case by simp
qed

text \<open>
  As long as the counter does not overflow, it increases by one at each anonymous open and
  the names are pairwise distinct: an anonymous open never gets the name of one that
  returned before it.
\<close>

lemma anonymous_names_distinct:
  assumes "anonymous_opens eng n w = Some w1" and "0 < n" and "db_count w1 \<noteq> 0x7FFFFFFF"
  shows "anonymous_name eng w1 \<noteq> anonymous_name eng w"
proof
  assume eq: "anonymous_name eng w1 = anonymous_name eng w"
  have c: "sint (db_count w1) = sint (db_count w) + int n"
    using assms(1) by (rule anonymous_opens_count)
  have "db_count w \<noteq> 0x7FFFFFFF"
  proof
    assume "db_count w = 0x7FFFFFFF"
    then have "sint (db_count w) = 2 ^ 31 - 1" by simp
    with c assms(2) sint_lt [of "db_count w1"] show False by simp
  qed
  with eq assms(3) have "sint (db_count w1) + 1 = sint (db_count w) + 1"
    by (auto simp add: anonymous_name_eq dest: format_d_inj)
  with c assms(2) show False by simp
qed

text \<open>
  Claim C9. Every anonymous open should get a name that is unique for the lifetime of the
  process, and the comment in \<^verbatim>\<open>Fsqlite_open\<close> says the names have to be different. The
  counter is an \<^verbatim>\<open>int\<close>: after \<open>2^31 - 1\<close> anonymous opens, all of which return, it
  holds the largest \<^verbatim>\<open>int\<close>, and the next anonymous open increments it beyond: a signed
  overflow, for which C defines no behaviour and after which no name is guaranteed.
\<close>

theorem anonymous_open_overflows:
  "\<exists>w. anonymous_opens plain_engine (2 ^ 31 - 1) closed_world = Some w \<and>
       db_count w = 0x7FFFFFFF \<and> Fsqlite_open plain_engine [] w = Crashed w"
proof -
  have "sint (db_count closed_world) + int (2 ^ 31 - 1) \<le> 2 ^ 31 - 1"
    by (simp add: closed_world_def)
  from anonymous_opens_reach [OF this, of plain_engine] obtain w where
    w: "anonymous_opens plain_engine (2 ^ 31 - 1) closed_world = Some w" ..
  from anonymous_opens_count [OF w] have "sint (db_count w) = 2 ^ 31 - 1"
    by (simp add: closed_world_def)
  then have "db_count w = 0x7FFFFFFF" by (simp add: sint_max_int)
  with w show ?thesis by (auto simp: anonymous_open_overflow)
qed

section \<open>What a call leaves unchanged\<close>

lemma pending_xsignal: "pending (xsignal a b w) \<noteq> None"
  by (simp add: xsignal_def split: option.splits)

lemma pending_xsignal_ex [simp]: "\<exists>y. pending (xsignal a b w) = Some y"
  using pending_xsignal [of a b w] by blast

lemma pending_xsignal_None: "pending w = None \<Longrightarrow> pending (xsignal a b w) = Some (Signal a b)"
  by (simp add: xsignal_def)

lemma sqlites_xsignal [simp]: "sqlites (xsignal a b w) = sqlites w"
  by (simp add: xsignal_def split: option.splits)

lemma lisp_sqlite_check_None: "lisp_sqlite_check v w = (None, w1) \<Longrightarrow> pending w1 \<noteq> None"
  by (auto simp: lisp_sqlite_check_def Let_def pending_xsignal split: if_splits)

lemma lisp_sqlite_check_Some:
  "lisp_sqlite_check v w = (Some ptr, w1) \<Longrightarrow>
     w1 = w \<and> db (sqlites w ptr) \<noteq> None \<and> v = User_ptr (Some Lisp_sqlite_free) ptr"
  by (cases v) (auto simp: lisp_sqlite_check_def user_ptr_check_def TYPEP_def Let_def
      split: if_splits)

lemma CHECK_STRING_True: "CHECK_STRING v w = (True, w1) \<Longrightarrow> w1 = w \<and> (\<exists>sql. v = Str sql)"
  by (cases v) (auto simp: CHECK_STRING_def TYPEP_def split: if_splits)

lemma CHECK_STRING_False: "CHECK_STRING v w = (False, w1) \<Longrightarrow> pending w1 \<noteq> None"
  by (auto simp: CHECK_STRING_def pending_xsignal split: if_splits)

lemma execute_exit_pending: "execute_exit ret msg w = Returned v w1 \<Longrightarrow> pending w1 \<noteq> None"
  by (auto simp: execute_exit_def pending_xsignal split: if_splits)

lemma bind_status_None:
  "bind_status eng d (sqlite3_bind eng s pos a w) = (None, w1) \<Longrightarrow>
     trace w1 = trace w @ [Bind s pos a] \<and> sqlites w1 = sqlites w"
  by (auto simp: bind_status_def sqlite3_bind_def sqlite3_errmsg_def native_def split: if_splits)

lemma sqlites_host_signal [simp]: "sqlites (host_signal sig w) = sqlites w"
  by (simp add: host_signal_def split: option.splits)

lemma trace_host_signal [simp]: "trace (host_signal sig w) = trace w"
  by (simp add: host_signal_def split: option.splits)

lemma XFIXNUM_frame: "XFIXNUM v w = (x, w1) \<Longrightarrow> trace w1 = trace w \<and> sqlites w1 = sqlites w"
  by (auto simp: XFIXNUM_def split: emacs_value.splits if_splits)

lemma bind_value_None:
  assumes "bind_value eng d s i v w = (None, w1)"
  shows "\<exists>a. trace w1 = trace w @ [Bind s (i + 1) a]"
proof (cases "pending w \<noteq> None")
  case True
  with assms show ?thesis
    by (auto simp: bind_value_def dest: bind_status_None)
next
  case False
  show ?thesis
  proof (cases v)
    case (Integer n)
    obtain x w2 where x: "XFIXNUM v w = (x, w2)" by (cases "XFIXNUM v w")
    with assms False Integer XFIXNUM_frame [OF x] show ?thesis
      by (auto simp: bind_value_def dest!: bind_status_None)
  next
    case (Str str)
    with assms False show ?thesis
      by (auto simp: bind_value_def Let_def split: option.splits sum.splits if_splits
          dest!: bind_status_None)
  qed (use assms False in \<open>auto simp: bind_value_def split: if_splits dest!: bind_status_None\<close>)
qed

lemma car_frame: "car v w = (x, w1) \<Longrightarrow> trace w1 = trace w"
  by (auto simp: car_def split: emacs_value.splits if_splits)

lemma cdr_frame: "cdr v w = (x, w1) \<Longrightarrow> trace w1 = trace w"
  by (auto simp: cdr_def split: emacs_value.splits if_splits)

lemma bind_values_loop_None:
  "bind_values_loop eng d s is_vector vals i left w = (None, w1) \<Longrightarrow>
     \<exists>bs. trace w1 = trace w @ bs \<and> (\<forall>c \<in> set bs. \<exists>pos a. c = Bind s pos a)"
proof (induction left arbitrary: vals i w)
  case 0
  then show ?case by simp
next
  case (Suc left)
  obtain elem rest1 w3 where step:
    "(if is_vector then ((vec_get vals i, vals), w)
      else (case car vals w of
              (value, w1) \<Rightarrow> (case cdr vals w1 of (rest, w2) \<Rightarrow> ((value, rest), w2)))) =
     ((elem, rest1), w3)"
    by (metis prod.exhaust)
  then have t3: "trace w3 = trace w"
    by (auto split: if_splits prod.splits dest!: car_frame cdr_frame)
  from Suc.prems step obtain w4 where
    b: "bind_value eng d s i elem w3 = (None, w4)" and
    r: "bind_values_loop eng d s is_vector rest1 (i + 1) left w4 = (None, w1)"
    by (auto split: prod.splits option.splits)
  from bind_value_None [OF b] obtain a where a: "trace w4 = trace w3 @ [Bind s (i + 1) a]" ..
  from Suc.IH [OF r] obtain bs where
    bs: "trace w1 = trace w4 @ bs" "\<forall>c \<in> set bs. \<exists>pos a. c = Bind s pos a" by blast
  have "trace w1 = trace w @ (Bind s (i + 1) a # bs)"
    using a bs(1) t3 by simp
  moreover have "\<forall>c \<in> set (Bind s (i + 1) a # bs). \<exists>pos a. c = Bind s pos a"
    using bs(2) by simp
  ultimately show ?case by blast
qed

lemma lisp_length_frame: "lisp_length v w = (n, w1) \<Longrightarrow> trace w1 = trace w"
  by (auto simp: lisp_length_def split: emacs_value.splits option.splits)

lemma bind_values_None:
  assumes "bind_values eng d s values w = (None, w1)"
  shows "\<exists>bs. trace w1 = trace w @ Reset s # bs \<and> (\<forall>c \<in> set bs. \<exists>pos a. c = Bind s pos a)"
proof -
  obtain len w2 where l:
    "(if TYPEP values ''vector'' then (vec_size values, sqlite3_reset eng s w)
      else lisp_length values (sqlite3_reset eng s w)) = (len, w2)"
    by (metis prod.exhaust)
  then have t2: "trace w2 = trace w @ [Reset s]"
    by (auto simp: sqlite3_reset_def native_def split: if_splits dest: lisp_length_frame)
  from assms l have "bind_values_loop eng d s (TYPEP values ''vector'') values 0 len w2 = (None, w1)"
    by (simp add: bind_values_def Let_def)
  from bind_values_loop_None [OF this] t2 show ?thesis by auto
qed

section \<open>Executing a statement\<close>

text \<open>
  \<^verbatim>\<open>Fsqlite_execute\<close> once its arguments have passed the checks, with the answer to the
  prepare and the result of the binding named.
\<close>

lemma execute_after_checks:
  assumes a0: "args ! 0 = User_ptr (Some Lisp_sqlite_free) p" and open_db: "db (sqlites w p) \<noteq> None"
    and a1: "args ! 1 = Str sql"
    and vals: "\<not> (length args > 2 \<and>
       \<not> (NILP (args ! 2) \<or> TYPE_OF (args ! 2) = ''cons'' \<or> TYPE_OF (args ! 2) = ''vector''))"
    and prep: "reply_prepare_v2 eng (trace w) (db (sqlites w p)) (str_bytes sql) (- 1) = (ret, s)"
    and bind:
      "(if length args > 2 \<and> \<not> NILP (args ! 2)
        then bind_values eng (db (sqlites w p)) s (args ! 2)
               (native (Prepare_v2 (db (sqlites w p)) (str_bytes sql) (- 1)) w)
        else (None, native (Prepare_v2 (db (sqlites w p)) (str_bytes sql) (- 1)) w)) = (e, w4)"
  shows "Fsqlite_execute eng args w =
     (if ret \<noteq> SQLITE_OK then
        (let w3 = native (Prepare_v2 (db (sqlites w p)) (str_bytes sql) (- 1)) w;
             w4 = (if s \<noteq> None then sqlite3_reset eng s (sqlite3_finalize eng s w3) else w3)
         in case sqlite3_errmsg eng (db (sqlites w p)) w4 of
              (errmsg, w5) \<Rightarrow> execute_exit ret errmsg w5)
      else
        (case e of
           Some err \<Rightarrow> execute_exit ret err w4
         | None \<Rightarrow>
             if reply_step eng (trace w4) s \<noteq> SQLITE_OK \<and> reply_step eng (trace w4) s \<noteq> SQLITE_DONE
             then
               (case sqlite3_errmsg eng (db (sqlites w p)) (native (Finalize s) (native (Step s) w4)) of
                  (errmsg, w7) \<Rightarrow> execute_exit (reply_step eng (trace w4) s) errmsg w7)
             else
               Returned
                 (make_int (sint (reply_changes eng (trace (native (Finalize s) (native (Step s) w4)))
                    (db (sqlites w p)))))
                 (native (Changes (db (sqlites w p))) (native (Finalize s) (native (Step s) w4)))))"
proof -
  let ?d = "db (sqlites w p)"
  let ?w3 = "native (Prepare_v2 ?d (str_bytes sql) (- 1)) w"
  let ?ret1 = "reply_step eng (trace w4) s"
  let ?w6 = "native (Finalize s) (native (Step s) w4)"
  let ?bad_values = "length args > 2 \<and>
     \<not> (NILP (args ! 2) \<or> TYPE_OF (args ! 2) = ''cons'' \<or> TYPE_OF (args ! 2) = ''vector'')"
  have c: "lisp_sqlite_check (args ! 0) w = (Some p, w)"
    using a0 open_db by (simp add: lisp_sqlite_check_def user_ptr_check_def TYPEP_def)
  have cs: "CHECK_STRING (args ! 1) w = (True, w)"
    using a1 by (simp add: CHECK_STRING_def TYPEP_def)
  have "Fsqlite_execute eng args w =
    (if ?bad_values
     then Returned Qnil (xsignal ''error'' [build_string ''VALUES must be a list or a vector''] w)
     else
       (if ret \<noteq> SQLITE_OK then
          (let w4 = (if s \<noteq> None then sqlite3_reset eng s (sqlite3_finalize eng s ?w3) else ?w3)
           in case sqlite3_errmsg eng ?d w4 of (errmsg, w5) \<Rightarrow> execute_exit ret errmsg w5)
        else
          (case e of
             Some err \<Rightarrow> execute_exit ret err w4
           | None \<Rightarrow>
               if ?ret1 \<noteq> SQLITE_OK \<and> ?ret1 \<noteq> SQLITE_DONE then
                 (case sqlite3_errmsg eng ?d ?w6 of (errmsg, w7) \<Rightarrow> execute_exit ?ret1 errmsg w7)
               else Returned (make_int (sint (reply_changes eng (trace ?w6) ?d)))
                      (native (Changes ?d) ?w6))))"
    using c cs a1 prep bind
    by (simp add: Fsqlite_execute_def sqlite3_prepare_v2_def sqlite3_step_def
        sqlite3_finalize_def sqlite3_changes_def Let_def split: option.splits
        cong: if_cong)
  with vals show ?thesis by (simp only: if_False Let_def)
qed

text \<open>
  Claim C5. A call of \<^verbatim>\<open>Fsqlite_execute\<close> that returns with no signal pending was made
  on an open connection with a string as SQL; its native calls are the prepare, then the
  reset and the binds of \<^verbatim>\<open>bind_values\<close> if values were given, then one step of the
  statement, its finalize, and \<^verbatim>\<open>sqlite3_changes\<close>; the value returned is the number
  that \<^verbatim>\<open>sqlite3_changes\<close> answers. With an engine that reports one changed row, the
  insert of one row returns 1.
\<close>

theorem execute_success:
  assumes ex: "Fsqlite_execute eng args w = Returned v w'" and clean: "pending w' = None"
  shows "\<exists>p sql s binds.
           args ! 0 = User_ptr (Some Lisp_sqlite_free) p \<and> db (sqlites w p) \<noteq> None \<and>
           args ! 1 = Str sql \<and>
           trace w' = trace w @ [Prepare_v2 (db (sqlites w p)) (str_bytes sql) (- 1)] @ binds @
                        [Step s, Finalize s, Changes (db (sqlites w p))] \<and>
           (\<forall>c \<in> set binds. c = Reset s \<or> (\<exists>pos a. c = Bind s pos a)) \<and>
           v = Integer (sint (reply_changes eng
                 (trace w @ [Prepare_v2 (db (sqlites w p)) (str_bytes sql) (- 1)] @ binds @
                    [Step s, Finalize s]) (db (sqlites w p))))"
proof -
  obtain r w1 where c: "lisp_sqlite_check (args ! 0) w = (r, w1)"
    by (metis prod.exhaust)
  have "r \<noteq> None"
  proof
    assume "r = None"
    with c ex have "w' = w1" by (simp add: Fsqlite_execute_def)
    with c \<open>r = None\<close> clean show False by (auto dest: lisp_sqlite_check_None)
  qed
  then obtain p where r: "r = Some p" by blast
  from c r lisp_sqlite_check_Some [of "args ! 0" w p w1]
  have w1: "w1 = w" and open_db: "db (sqlites w p) \<noteq> None"
    and a0: "args ! 0 = User_ptr (Some Lisp_sqlite_free) p" by simp_all
  obtain b w2 where cs: "CHECK_STRING (args ! 1) w = (b, w2)"
    by (metis prod.exhaust)
  have b: "b"
  proof (rule ccontr)
    assume "\<not> b"
    with c r w1 cs ex have "w' = w2" by (simp add: Fsqlite_execute_def)
    with cs \<open>\<not> b\<close> clean show False by (auto dest: CHECK_STRING_False)
  qed
  with cs CHECK_STRING_True [of "args ! 1" w w2] obtain sql where
    w2: "w2 = w" and a1: "args ! 1 = Str sql" by auto
  let ?d = "db (sqlites w p)"
  let ?bad_values = "length args > 2 \<and>
     \<not> (NILP (args ! 2) \<or> TYPE_OF (args ! 2) = ''cons'' \<or> TYPE_OF (args ! 2) = ''vector'')"
  have vals: "\<not> ?bad_values"
  proof
    assume "?bad_values"
    with c r w1 cs b w2 ex
    have "w' = xsignal ''error'' [build_string ''VALUES must be a list or a vector''] w"
      by (simp add: Fsqlite_execute_def)
    with clean show False by (simp add: pending_xsignal)
  qed
  obtain ret s where prep: "reply_prepare_v2 eng (trace w) ?d (str_bytes sql) (- 1) = (ret, s)"
    by (metis prod.exhaust)
  let ?w3 = "native (Prepare_v2 ?d (str_bytes sql) (- 1)) w"
  obtain e w4 where bind:
    "(if length args > 2 \<and> \<not> NILP (args ! 2) then bind_values eng ?d s (args ! 2) ?w3
      else (None, ?w3)) = (e, w4)"
    by (metis prod.exhaust)
  let ?ret1 = "reply_step eng (trace w4) s"
  let ?w6 = "native (Finalize s) (native (Step s) w4)"
  have tail: "Fsqlite_execute eng args w =
     (if ret \<noteq> SQLITE_OK then
        (let w3 = ?w3;
             w4 = (if s \<noteq> None then sqlite3_reset eng s (sqlite3_finalize eng s w3) else w3)
         in case sqlite3_errmsg eng ?d w4 of (errmsg, w5) \<Rightarrow> execute_exit ret errmsg w5)
      else
        (case e of
           Some err \<Rightarrow> execute_exit ret err w4
         | None \<Rightarrow>
             if ?ret1 \<noteq> SQLITE_OK \<and> ?ret1 \<noteq> SQLITE_DONE then
               (case sqlite3_errmsg eng ?d ?w6 of (errmsg, w7) \<Rightarrow> execute_exit ?ret1 errmsg w7)
             else Returned (make_int (sint (reply_changes eng (trace ?w6) ?d)))
                    (native (Changes ?d) ?w6)))"
    by (rule execute_after_checks [OF a0 open_db a1 vals prep bind])
  have ret: "ret = SQLITE_OK"
  proof (rule ccontr)
    assume "ret \<noteq> SQLITE_OK"
    with tail ex clean show False
      by (auto simp: Let_def split: prod.splits dest: execute_exit_pending execute_exit_pending [OF sym])
  qed
  have e: "e = None"
  proof (cases e)
    case (Some err)
    with tail ret ex clean show ?thesis by (auto dest: execute_exit_pending execute_exit_pending [OF sym])
  qed simp
  have ret1: "\<not> (?ret1 \<noteq> SQLITE_OK \<and> ?ret1 \<noteq> SQLITE_DONE)"
  proof
    assume "?ret1 \<noteq> SQLITE_OK \<and> ?ret1 \<noteq> SQLITE_DONE"
    with tail ret e ex clean show False
      by (auto split: prod.splits dest: execute_exit_pending execute_exit_pending [OF sym])
  qed
  from tail ret e ret1 ex
  have v: "v = Integer (sint (reply_changes eng (trace ?w6) ?d))"
    and w': "w' = native (Changes ?d) ?w6"
    by (simp_all add: make_int_def)
  obtain binds where binds: "trace w4 = trace ?w3 @ binds"
    "\<forall>c \<in> set binds. c = Reset s \<or> (\<exists>pos a. c = Bind s pos a)"
  proof (cases "length args > 2 \<and> \<not> NILP (args ! 2)")
    case True
    with bind e have "bind_values eng ?d s (args ! 2) ?w3 = (None, w4)" by simp
    from bind_values_None [OF this] obtain bs where
      "trace w4 = trace ?w3 @ Reset s # bs" "\<forall>c \<in> set bs. \<exists>pos a. c = Bind s pos a" by blast
    then show ?thesis by (intro that [of "Reset s # bs"]) auto
  next
    case False
    with bind have "w4 = ?w3" by simp
    then show ?thesis by (intro that [of "[]"]) auto
  qed
  have t6: "trace ?w6 = trace w @ [Prepare_v2 ?d (str_bytes sql) (- 1)] @ binds @ [Step s, Finalize s]"
    using binds(1) by (simp add: native_def)
  have t': "trace w' = trace w @ [Prepare_v2 ?d (str_bytes sql) (- 1)] @ binds @
                        [Step s, Finalize s, Changes ?d]"
    using w' t6 by (simp add: native_def)
  show ?thesis
    using a0 open_db a1 t' binds(2) v t6 by metis
qed



theorem execute_success_witness:
  "Fsqlite_execute plain_engine
       [User_ptr (Some Lisp_sqlite_free) 0, make_string ''insert into t values (?, ?)'',
        list_value [Integer 1, make_string ''x'']] open_world =
     Returned (Integer 1)
       (open_world\<lparr>trace :=
          [Prepare_v2 (Some 7) ''insert into t values (?, ?)'' (- 1), Reset (Some 9),
           Bind (Some 9) 1 (Bind_int64 1), Bind (Some 9) 2 (Bind_text (Some ''x'')),
           Step (Some 9), Finalize (Some 9), Changes (Some 7)]\<rparr>) \<and>
   pending (open_world\<lparr>trace :=
          [Prepare_v2 (Some 7) ''insert into t values (?, ?)'' (- 1), Reset (Some 9),
           Bind (Some 9) 1 (Bind_int64 1), Bind (Some 9) 2 (Bind_text (Some ''x'')),
           Step (Some 9), Finalize (Some 9), Changes (Some 7)]\<rparr>) = None \<and>
   (\<exists>p sql s binds.
      [User_ptr (Some Lisp_sqlite_free) 0, make_string ''insert into t values (?, ?)'',
        list_value [Integer 1, make_string ''x'']] ! 0 = User_ptr (Some Lisp_sqlite_free) p \<and>
      db (sqlites open_world p) \<noteq> None \<and>
      [User_ptr (Some Lisp_sqlite_free) 0, make_string ''insert into t values (?, ?)'',
        list_value [Integer 1, make_string ''x'']] ! 1 = Str sql \<and>
      trace (open_world\<lparr>trace :=
          [Prepare_v2 (Some 7) ''insert into t values (?, ?)'' (- 1), Reset (Some 9),
           Bind (Some 9) 1 (Bind_int64 1), Bind (Some 9) 2 (Bind_text (Some ''x'')),
           Step (Some 9), Finalize (Some 9), Changes (Some 7)]\<rparr>) =
        trace open_world @ [Prepare_v2 (db (sqlites open_world p)) (str_bytes sql) (- 1)] @ binds @
          [Step s, Finalize s, Changes (db (sqlites open_world p))] \<and>
      (\<forall>c \<in> set binds. c = Reset s \<or> (\<exists>pos a. c = Bind s pos a)) \<and>
      Integer 1 = Integer (sint (reply_changes plain_engine
                 (trace open_world @ [Prepare_v2 (db (sqlites open_world p)) (str_bytes sql) (- 1)] @
                    binds @ [Step s, Finalize s]) (db (sqlites open_world p)))))"
proof -
  let ?args = "[User_ptr (Some Lisp_sqlite_free) 0, make_string ''insert into t values (?, ?)'',
        list_value [Integer 1, make_string ''x'']]"
  let ?w = "open_world\<lparr>trace :=
          [Prepare_v2 (Some 7) ''insert into t values (?, ?)'' (- 1), Reset (Some 9),
           Bind (Some 9) 1 (Bind_int64 1), Bind (Some 9) 2 (Bind_text (Some ''x'')),
           Step (Some 9), Finalize (Some 9), Changes (Some 7)]\<rparr>"
  have ex: "Fsqlite_execute plain_engine ?args open_world = Returned (Integer 1) ?w"
    by (simp add: Fsqlite_execute_def lisp_sqlite_check_def user_ptr_check_def TYPEP_def
        CHECK_STRING_def NILP_def sqlite3_prepare_v2_def sqlite3_reset_def sqlite3_bind_def
        sqlite3_step_def sqlite3_finalize_def sqlite3_changes_def native_def plain_engine_def
        open_world_def
        closed_world_def bind_values_def bind_value_def bind_status_def XFIXNUM_def
        lisp_length_def car_def cdr_def make_string_def make_int_def Let_def)
  have clean: "pending ?w = None"
    by (simp add: open_world_def closed_world_def)
  show ?thesis
    by (rule conjI [OF ex conjI [OF clean execute_success [OF ex clean]]])
qed


text \<open>
  Claim C6, with a signal left pending by the binding taken into account. When the
  prepare fails, or when the step fails, \<^verbatim>\<open>Fsqlite_execute\<close> returns with a signal
  pending. If the binding of the values left a signal pending (as
  an integer outside 64 bits does), that signal is the one raised. Otherwise the symbol
  of the signal is \<^verbatim>\<open>sqlite_locked_error\<close> exactly when the failing status is
  \<^verbatim>\<open>SQLITE_LOCKED\<close> or \<^verbatim>\<open>SQLITE_BUSY\<close>, and \<^verbatim>\<open>error\<close> otherwise, and its data is
  the string of the message the engine gives in answer to the \<^verbatim>\<open>sqlite3_errmsg\<close> call
  that ends the native calls of the function.
\<close>

theorem execute_failure_kind:
  assumes "args ! 0 = User_ptr (Some Lisp_sqlite_free) p" and "db (sqlites w p) \<noteq> None"
    and "args ! 1 = Str sql"
    and "\<not> (length args > 2 \<and>
       \<not> (NILP (args ! 2) \<or> TYPE_OF (args ! 2) = ''cons'' \<or> TYPE_OF (args ! 2) = ''vector''))"
    and "reply_prepare_v2 eng (trace w) (db (sqlites w p)) (str_bytes sql) (- 1) = (ret, s)"
    and "(if length args > 2 \<and> \<not> NILP (args ! 2)
          then bind_values eng (db (sqlites w p)) s (args ! 2)
                 (native (Prepare_v2 (db (sqlites w p)) (str_bytes sql) (- 1)) w)
          else (None, native (Prepare_v2 (db (sqlites w p)) (str_bytes sql) (- 1)) w)) = (e, w4)"
    and "pending w = None"
  shows
    "(ret \<noteq> SQLITE_OK \<longrightarrow>
        (\<exists>w' tr. Fsqlite_execute eng args w = Returned Qnil w' \<and>
           trace w' = tr @ [Errmsg (db (sqlites w p))] \<and>
           pending w' =
             Some (Signal (if ret = SQLITE_LOCKED \<or> ret = SQLITE_BUSY
                           then ''sqlite_locked_error'' else ''error'')
                     [Str \<lparr>str_bytes = reply_errmsg eng tr (db (sqlites w p)),
                           str_length = utf8_chars (reply_errmsg eng tr (db (sqlites w p))),
                           str_coding = None\<rparr>]))) \<and>
     (ret = SQLITE_OK \<and> e = None \<and>
      reply_step eng (trace w4) s \<noteq> SQLITE_OK \<and> reply_step eng (trace w4) s \<noteq> SQLITE_DONE \<longrightarrow>
        (\<exists>w' tr. Fsqlite_execute eng args w = Returned Qnil w' \<and>
           trace w' = tr @ [Errmsg (db (sqlites w p))] \<and>
           pending w' =
             (case pending w4 of
                Some sig \<Rightarrow> Some sig
              | None \<Rightarrow>
                  Some (Signal (if reply_step eng (trace w4) s = SQLITE_LOCKED \<or>
                                   reply_step eng (trace w4) s = SQLITE_BUSY
                                then ''sqlite_locked_error'' else ''error'')
                          [Str \<lparr>str_bytes = reply_errmsg eng tr (db (sqlites w p)),
                                str_length = utf8_chars (reply_errmsg eng tr (db (sqlites w p))),
                                str_coding = None\<rparr>]))))"
proof -
  note tail = execute_after_checks [OF assms(1-6)]
  have exit_signal:
    "\<exists>w' tr. execute_exit r (reply_errmsg eng (trace w0) d) (native (Errmsg d) w0) = Returned Qnil w' \<and>
       trace w' = tr @ [Errmsg d] \<and>
       pending w' =
         (case pending w0 of
            Some sig \<Rightarrow> Some sig
          | None \<Rightarrow>
              Some (Signal (if r = SQLITE_LOCKED \<or> r = SQLITE_BUSY
                            then ''sqlite_locked_error'' else ''error'')
                      [Str \<lparr>str_bytes = reply_errmsg eng tr d,
                            str_length = utf8_chars (reply_errmsg eng tr d), str_coding = None\<rparr>]))"
    for r w0 d
    by (cases "pending w0")
      (simp_all add: execute_exit_def xsignal_def native_def build_string_def make_string_def)
  show ?thesis
  proof (intro conjI impI)
    assume r: "ret \<noteq> SQLITE_OK"
    let ?w3 = "native (Prepare_v2 (db (sqlites w p)) (str_bytes sql) (- 1)) w"
    let ?w4 = "if s \<noteq> None then sqlite3_reset eng s (sqlite3_finalize eng s ?w3) else ?w3"
    have "pending ?w4 = None"
      using assms(7) by (simp add: sqlite3_reset_def sqlite3_finalize_def native_def)
    with exit_signal [of ret ?w4 "db (sqlites w p)"] tail r
    show "\<exists>w' tr. Fsqlite_execute eng args w = Returned Qnil w' \<and>
           trace w' = tr @ [Errmsg (db (sqlites w p))] \<and>
           pending w' =
             Some (Signal (if ret = SQLITE_LOCKED \<or> ret = SQLITE_BUSY
                           then ''sqlite_locked_error'' else ''error'')
                     [Str \<lparr>str_bytes = reply_errmsg eng tr (db (sqlites w p)),
                           str_length = utf8_chars (reply_errmsg eng tr (db (sqlites w p))),
                           str_coding = None\<rparr>])"
      by (simp add: sqlite3_errmsg_def Let_def)
  next
    assume a: "ret = SQLITE_OK \<and> e = None \<and>
      reply_step eng (trace w4) s \<noteq> SQLITE_OK \<and> reply_step eng (trace w4) s \<noteq> SQLITE_DONE"
    let ?w6 = "native (Finalize s) (native (Step s) w4)"
    have "pending ?w6 = pending w4"
      by (simp add: native_def)
    with exit_signal [of "reply_step eng (trace w4) s" ?w6 "db (sqlites w p)"] tail a
    show "\<exists>w' tr. Fsqlite_execute eng args w = Returned Qnil w' \<and>
           trace w' = tr @ [Errmsg (db (sqlites w p))] \<and>
           pending w' =
             (case pending w4 of
                Some sig \<Rightarrow> Some sig
              | None \<Rightarrow>
                  Some (Signal (if reply_step eng (trace w4) s = SQLITE_LOCKED \<or>
                                   reply_step eng (trace w4) s = SQLITE_BUSY
                                then ''sqlite_locked_error'' else ''error'')
                          [Str \<lparr>str_bytes = reply_errmsg eng tr (db (sqlites w p)),
                                str_length = utf8_chars (reply_errmsg eng tr (db (sqlites w p))),
                                str_coding = None\<rparr>]))"
      by (simp add: sqlite3_errmsg_def)
  qed
qed

theorem execute_failure_kind_witness:
  "pending (world_of (Fsqlite_execute locked_engine
       [User_ptr (Some Lisp_sqlite_free) 0, make_string ''insert into t values (1)''] open_world)) =
     Some (Signal ''sqlite_locked_error''
       [Str \<lparr>str_bytes = ''database is locked'', str_length = 18, str_coding = None\<rparr>]) \<and>
   pending (world_of (Fsqlite_execute failing_engine
       [User_ptr (Some Lisp_sqlite_free) 0, make_string ''insert into t values (1)''] open_world)) =
     Some (Signal ''error''
       [Str \<lparr>str_bytes = ''UNIQUE constraint failed'', str_length = 24, str_coding = None\<rparr>])"
proof -
  let ?args = "[User_ptr (Some Lisp_sqlite_free) 0, make_string ''insert into t values (1)'']"
  let ?sql = "\<lparr>str_bytes = ''insert into t values (1)'',
                str_length = utf8_chars ''insert into t values (1)'', str_coding = None\<rparr>"
  let ?w3 = "native (Prepare_v2 (db (sqlites open_world 0)) (str_bytes ?sql) (- 1)) open_world"
  have a: "?args ! 0 = User_ptr (Some Lisp_sqlite_free) 0" "db (sqlites open_world 0) \<noteq> None"
    "?args ! 1 = Str ?sql"
    "\<not> (length ?args > 2 \<and>
        \<not> (NILP (?args ! 2) \<or> TYPE_OF (?args ! 2) = ''cons'' \<or> TYPE_OF (?args ! 2) = ''vector''))"
    by (simp_all add: open_world_def closed_world_def make_string_def)
  have p: "pending open_world = None" "pending ?w3 = None"
    by (simp_all add: open_world_def closed_world_def native_def)
  have b: "(if length ?args > 2 \<and> \<not> NILP (?args ! 2)
          then bind_values eng (db (sqlites open_world 0)) s (?args ! 2) ?w3
          else (None, ?w3)) = (None, ?w3)" for eng s
    by simp
  have l: "reply_prepare_v2 locked_engine (trace open_world) (db (sqlites open_world 0))
             (str_bytes ?sql) (- 1) = (SQLITE_BUSY, None)"
    by (simp add: locked_engine_def plain_engine_def)
  have f: "reply_prepare_v2 failing_engine (trace open_world) (db (sqlites open_world 0))
             (str_bytes ?sql) (- 1) = (SQLITE_OK, Some 9)"
    "reply_step failing_engine (trace ?w3) (Some 9) = 19"
    by (simp_all add: failing_engine_def plain_engine_def)
  have m: "reply_errmsg locked_engine tr d = ''database is locked''"
    "reply_errmsg failing_engine tr d = ''UNIQUE constraint failed''" for tr d
    by (simp_all add: locked_engine_def failing_engine_def plain_engine_def)
  have u: "utf8_chars ''database is locked'' = 18" "utf8_chars ''UNIQUE constraint failed'' = 24"
    by (simp_all add: utf8_chars_def)
  show ?thesis
    using execute_failure_kind [OF a l b p(1)] execute_failure_kind [OF a f(1) b p(1)] f(2) p(2)
    by (auto simp: m u)
qed

text \<open>
  The claim as stated fails when the binding leaves a signal pending. An integer outside
  64 bits is bound as 0 with \<^verbatim>\<open>overflow-error\<close> pending; when the step then finds the
  database busy, the signal raised is \<^verbatim>\<open>overflow-error\<close>, not the locked failure.
\<close>

theorem execute_busy_after_overflow:
  "Fsqlite_execute busy_step_engine
       [User_ptr (Some Lisp_sqlite_free) 0, make_string ''insert into t values (?)'',
        Vector [Integer (2 ^ 63)]] open_world =
     Returned Qnil
       (open_world\<lparr>trace := [Prepare_v2 (Some 7) ''insert into t values (?)'' (- 1), Reset (Some 9),
                              Bind (Some 9) 1 (Bind_int64 0), Step (Some 9), Finalize (Some 9),
                              Errmsg (Some 7)],
                   pending := Some (Signal ''overflow-error'' [Integer (2 ^ 63)])\<rparr>) \<and>
   reply_step busy_step_engine
     [Prepare_v2 (Some 7) ''insert into t values (?)'' (- 1), Reset (Some 9),
      Bind (Some 9) 1 (Bind_int64 0)] (Some 9) = SQLITE_BUSY"
  by (simp add: Fsqlite_execute_def lisp_sqlite_check_def user_ptr_check_def TYPEP_def
      CHECK_STRING_def NILP_def xsignal_def sqlite3_prepare_v2_def sqlite3_reset_def
      sqlite3_bind_def sqlite3_step_def sqlite3_finalize_def sqlite3_errmsg_def native_def
      busy_step_engine_def plain_engine_def open_world_def closed_world_def bind_values_def
      bind_value_def bind_status_def XFIXNUM_def execute_exit_def Let_def)

section \<open>Values bound and read back\<close>












text \<open>Whatever the engine answers, no decoded column carries a coding-system mark.\<close>

lemma decoded_value_unmarked: "column_to_value c = Str str \<Longrightarrow> str_coding str = None"
  by (cases c) (auto simp: column_to_value_def make_int_def make_string_def make_unibyte_string_def)






end
